theory Spec2Isabelle
  imports Complex_Main
begin

section \<open>Errors and tensors\<close>

text \<open>
  The program is \<^verbatim>\<open>src/models/rnnlm.py\<close>: the classes \<^verbatim>\<open>RNNEncoder\<close> and \<^verbatim>\<open>RNNLM\<close>.
  Every exception the code can raise is a value of \<open>error\<close>; a function that can raise
  returns \<open>error + 'a\<close>, with \<open>Inl\<close> for the exception.

  A tensor is a nested list in the order of its dimensions: token ids \<^verbatim>\<open>[batch, time]\<close> are
  an \<open>int list list\<close>, lengths \<^verbatim>\<open>[batch]\<close> an \<open>int list\<close>, activations are lists of
  \<open>vec\<close>. Activations are real numbers: rounding and overflow of the floating-point
  arithmetic are not modelled.
\<close>

datatype error =
    AssertionError
  | TypeError
  | IndexError
  | RuntimeError
  | AttributeError
  | ShapeMismatch
  | ConfigurationError
  | DataRangeError

type_synonym vec = "real list"

text \<open>\<^verbatim>\<open>x.transpose(0, 1)\<close> of a tensor whose second dimension is \<open>n\<close>.\<close>

definition transpose01 :: "nat \<Rightarrow> 'a list list \<Rightarrow> 'a list list" where
  "transpose01 n xss = map (\<lambda>t. map (\<lambda>xs. xs ! t) xss) [0..<n]"

text \<open>The size of the second dimension; a tensor with an empty first dimension is \<open>[]\<close>
  and its second dimension is read as 0.\<close>

definition dim1 :: "'a list list \<Rightarrow> nat" where
  "dim1 xss = (case xss of [] \<Rightarrow> 0 | xs # _ \<Rightarrow> length xs)"

section \<open>The padding mask of \<^verbatim>\<open>RNNEncoder.forward\<close> (lines 56 to 60)\<close>

text \<open>\<^verbatim>\<open>torch.max(seq_len)\<close>: the largest entry; PyTorch raises a RuntimeError on an
  empty tensor.\<close>

fun torch_max :: "int list \<Rightarrow> error + int" where
  "torch_max [] = Inl RuntimeError"
| "torch_max (x # xs) = Inr (fold max xs x)"

text \<open>\<^verbatim>\<open>torch.arange(0, n, 1)\<close>: the integers \<open>0, ..., n - 1\<close>; PyTorch raises a
  RuntimeError when the upper bound is below the lower one.\<close>

definition torch_arange :: "int \<Rightarrow> error + int list" where
  "torch_arange n = (if n < 0 then Inl RuntimeError else Inr (map int [0..<nat n]))"

text \<open>
  \<^verbatim>\<open>max_seq_len = torch.max(seq_len)\<close>
  \<^verbatim>\<open>ids = torch.arange(0, max_seq_len, 1)\<close>
  \<^verbatim>\<open>padding = seq_len.unsqueeze(1) < ids\<close>
  \<^verbatim>\<open>padding = padding.transpose(0, 1).unsqueeze(2)\<close>
  The result is time-major, \<open>padding ! t ! b\<close>; the trailing dimension of size 1 is left out.
\<close>

definition padding :: "int list \<Rightarrow> error + bool list list" where
  "padding seq_len =
     (case torch_max seq_len of
        Inl e \<Rightarrow> Inl e
      | Inr max_seq_len \<Rightarrow>
          (case torch_arange max_seq_len of
             Inl e \<Rightarrow> Inl e
           | Inr ids \<Rightarrow>
               Inr (transpose01 (length ids) (map (\<lambda>l. map (\<lambda>i. l < i) ids) seq_len))))"

section \<open>Floating-point results\<close>

text \<open>
  The loss and the perplexities are floating-point tensors. A value is a real number or
  one of the three special values; rounding and overflow are not modelled. The special
  values are there because the code divides by a sum that can be zero (line 141).
\<close>

datatype fl = Fin real | PInf | NInf | NaN

text \<open>\<^verbatim>\<open>x.exp()\<close>\<close>

fun torch_exp :: "fl \<Rightarrow> fl" where
  "torch_exp (Fin x) = Fin (exp x)"
| "torch_exp PInf = PInf"
| "torch_exp NInf = Fin 0"
| "torch_exp NaN = NaN"

text \<open>\<^verbatim>\<open>x * n\<close> for a float tensor \<open>x\<close> and a Python integer \<open>n\<close>.\<close>

fun torch_mul :: "fl \<Rightarrow> int \<Rightarrow> fl" where
  "torch_mul (Fin x) n = Fin (x * of_int n)"
| "torch_mul PInf n = (if 0 < n then PInf else if n < 0 then NInf else NaN)"
| "torch_mul NInf n = (if 0 < n then NInf else if n < 0 then PInf else NaN)"
| "torch_mul NaN n = NaN"

text \<open>\<^verbatim>\<open>x / n\<close> for a float tensor \<open>x\<close> and an integer tensor \<open>n\<close>: true division, with
  the IEEE results for a zero divisor.\<close>

fun torch_div :: "fl \<Rightarrow> int \<Rightarrow> fl" where
  "torch_div (Fin x) n =
     (if n = 0 then (if 0 < x then PInf else if x < 0 then NInf else NaN)
      else Fin (x / of_int n))"
| "torch_div PInf n = (if 0 \<le> n then PInf else NInf)"
| "torch_div NInf n = (if 0 \<le> n then NInf else PInf)"
| "torch_div NaN n = NaN"

text \<open>\<^verbatim>\<open>x.sum()\<close> of an integer tensor: the sum is a signed 64-bit integer and wraps
  around.\<close>

definition int64 :: "int \<Rightarrow> int" where
  "int64 n = (n + 2 ^ 63) mod 2 ^ 64 - 2 ^ 63"

definition torch_sum :: "int list \<Rightarrow> int" where
  "torch_sum xs = int64 (sum_list xs)"

fun is_finite :: "fl \<Rightarrow> bool" where
  "is_finite (Fin x) = True"
| "is_finite PInf = False"
| "is_finite NInf = False"
| "is_finite NaN = False"

section \<open>The label-smoothing loss\<close>

text \<open>
  Modelled from the spec: \<^verbatim>\<open>models/label_smoothing.py\<close> (class \<^verbatim>\<open>LabelSmoothingLoss\<close>) is
  not among the sources; only its construction (line 116) and its call (line 138) are.
  The definitions below follow section 4.4 of the specification: the constructor's
  arguments are the vocabulary size, the ignore id, the smoothing weight and the
  length-normalisation switch; the call takes log-probabilities \<^verbatim>\<open>[B, T, V]\<close> and targets
  \<^verbatim>\<open>[B, T]\<close> and returns the scalar loss and the per-sequence losses.
\<close>

record label_smoothing_loss =
  ls_vocab_size :: nat
  ignore_id :: int
  ls_weight :: real
  ls_length_normalized :: bool

text \<open>Modelled from the spec: the constructor, with the arguments in the order of
  line 116.\<close>

definition LabelSmoothingLoss_init ::
  "nat \<Rightarrow> int \<Rightarrow> real \<Rightarrow> bool \<Rightarrow> label_smoothing_loss" where
  "LabelSmoothingLoss_init vocab_size ignore lsm_weight length_normalized =
     \<lparr>ls_vocab_size = vocab_size, ignore_id = ignore, ls_weight = lsm_weight,
      ls_length_normalized = length_normalized\<rparr>"

text \<open>Modelled from the spec: the smoothed target distribution, mass \<open>1 - \<epsilon>\<close> on the true
  label and \<open>\<epsilon>\<close> spread uniformly over the remaining \<open>V - 1\<close> classes (with \<open>V = 1\<close> there
  is no remaining class and the share is never used).\<close>

definition smoothed_target :: "label_smoothing_loss \<Rightarrow> int \<Rightarrow> nat \<Rightarrow> real" where
  "smoothed_target crit y v =
     (if int v = y then 1 - ls_weight crit
      else ls_weight crit / real (ls_vocab_size crit - 1))"

text \<open>Modelled from the spec: the cross-entropy of one position against its
  log-probabilities.\<close>

definition position_loss :: "label_smoothing_loss \<Rightarrow> vec \<Rightarrow> int \<Rightarrow> real" where
  "position_loss crit lp y =
     - sum_list (map (\<lambda>v. smoothed_target crit y v * lp ! v) [0..<ls_vocab_size crit])"

text \<open>Modelled from the spec: the positions of a sequence that count, those whose
  target is not the ignore id.\<close>

definition counted :: "label_smoothing_loss \<Rightarrow> vec list \<Rightarrow> int list \<Rightarrow> (vec \<times> int) list" where
  "counted crit lps ys = filter (\<lambda>(lp, y). y \<noteq> ignore_id crit) (zip lps ys)"

text \<open>Modelled from the spec: the per-sequence loss, the sum over the counted positions,
  or their mean in length-normalised mode; a sequence with no counted position has the
  defined value 0 (the edge case of section 4.4).\<close>

definition seq_loss :: "label_smoothing_loss \<Rightarrow> vec list \<Rightarrow> int list \<Rightarrow> real" where
  "seq_loss crit lps ys =
     (let ps = counted crit lps ys;
          s = sum_list (map (\<lambda>(lp, y). position_loss crit lp y) ps)
      in if ls_length_normalized crit
         then (if length ps = 0 then 0 else s / real (length ps))
         else s)"

text \<open>Modelled from the spec: the shapes of one sequence agree with the vocabulary,
  and a label is the ignore id or a token of the vocabulary.\<close>

definition seq_shape_ok :: "label_smoothing_loss \<Rightarrow> vec list \<Rightarrow> int list \<Rightarrow> bool" where
  "seq_shape_ok crit lps ys =
     (length lps = length ys \<and> list_all (\<lambda>lp. length lp = ls_vocab_size crit) lps)"

definition label_ok :: "label_smoothing_loss \<Rightarrow> int \<Rightarrow> bool" where
  "label_ok crit y = (y = ignore_id crit \<or> (0 \<le> y \<and> y < int (ls_vocab_size crit)))"

text \<open>Modelled from the spec: the call. A shape that disagrees is a ShapeMismatch, a
  label outside the vocabulary other than the ignore id a DataRangeError (section 7).
  The scalar loss is the sum of the per-sequence losses, divided by the number of
  counted positions of the batch in length-normalised mode (0 when there is none).\<close>

definition LabelSmoothingLoss_forward ::
  "label_smoothing_loss \<Rightarrow> vec list list \<Rightarrow> int list list \<Rightarrow> error + (fl \<times> fl list)" where
  "LabelSmoothingLoss_forward crit log_probs targets =
     (if length log_probs = length targets
         \<and> list_all (\<lambda>(lps, ys). seq_shape_ok crit lps ys) (zip log_probs targets)
      then
        if list_all (list_all (label_ok crit)) targets
        then
          (let per = map (\<lambda>(lps, ys). seq_loss crit lps ys) (zip log_probs targets);
               n = sum_list (map (\<lambda>(lps, ys). length (counted crit lps ys))
                      (zip log_probs targets));
               s = sum_list per
           in Inr (Fin (if ls_length_normalized crit
                        then (if n = 0 then 0 else s / real n) else s),
                   map Fin per))
        else Inl DataRangeError
      else Inl ShapeMismatch)"

section \<open>The class \<^verbatim>\<open>RNNLM\<close>\<close>

text \<open>
  \<^verbatim>\<open>lm_encoder\<close> is any module with a \<^verbatim>\<open>forward\<close> and a \<^verbatim>\<open>forward_step\<close> method: the
  record holds the two methods. Token ids are \<^verbatim>\<open>[batch, time]\<close>, the log-probabilities
  \<^verbatim>\<open>[batch, time, vocab]\<close>, a prior state tensor \<^verbatim>\<open>[layer, batch, hidden]\<close>.

  What the module's \<^verbatim>\<open>forward_step\<close> returns as state is any value that \<^verbatim>\<open>RNNLM\<close> can
  index: a tuple of tensors or a single tensor, of any rank. \<^verbatim>\<open>s[i]\<close> is the \<open>i\<close>-th
  element of a tuple and the \<open>i\<close>-th slice of a tensor, and raises IndexError when there
  is none.
\<close>

datatype tensor = Scalar real | Tensor "tensor list"

datatype state_value = StateTuple "tensor list" | StateTensor tensor

fun state_index :: "state_value \<Rightarrow> nat \<Rightarrow> error + tensor" where
  "state_index (StateTuple ts) i = (if i < length ts then Inr (ts ! i) else Inl IndexError)"
| "state_index (StateTensor (Tensor ts)) i =
     (if i < length ts then Inr (ts ! i) else Inl IndexError)"
| "state_index (StateTensor (Scalar x)) i = Inl IndexError"

text \<open>A state tensor \<^verbatim>\<open>[layer, batch, hidden]\<close> as a value of \<open>tensor\<close>.\<close>

definition tensor_of_state :: "vec list list \<Rightarrow> tensor" where
  "tensor_of_state s = Tensor (map (\<lambda>layer. Tensor (map (\<lambda>v. Tensor (map Scalar v)) layer)) s)"

record lm_encoder =
  enc_forward :: "int list list \<Rightarrow> int list \<Rightarrow> error + vec list list"
  enc_forward_step ::
    "int list list \<Rightarrow> int list \<Rightarrow> vec list list \<Rightarrow> vec list list
       \<Rightarrow> error + (vec list list \<times> state_value)"

record rnnlm =
  model :: lm_encoder
  length_normalized_loss :: bool
  criterion :: label_smoothing_loss

text \<open>\<^verbatim>\<open>RNNLM.__init__\<close> (lines 102 to 117).\<close>

definition RNNLM_init :: "nat \<Rightarrow> lm_encoder \<Rightarrow> real \<Rightarrow> bool \<Rightarrow> rnnlm" where
  "RNNLM_init vocab_size encoder lsm_weight length_normalized =
     \<lparr>model = encoder,
      length_normalized_loss = length_normalized,
      criterion = LabelSmoothingLoss_init vocab_size (- 1) lsm_weight length_normalized\<rparr>"

text \<open>
  \<^verbatim>\<open>RNNLM.forward\<close> after its assertion (lines 137 to 144). The first argument is the
  call of the criterion, \<^verbatim>\<open>self.criterion(logit, labels)\<close>, whose class is not among the
  sources.
\<close>

definition RNNLM_forward_body ::
  "(label_smoothing_loss \<Rightarrow> vec list list \<Rightarrow> int list list \<Rightarrow> error + (fl \<times> fl list))
     \<Rightarrow> rnnlm \<Rightarrow> int list list \<Rightarrow> int list \<Rightarrow> int list list \<Rightarrow> int list
     \<Rightarrow> error + (fl \<times> fl list \<times> fl)" where
  "RNNLM_forward_body criterion_call lm input input_length labels labels_length =
     (case enc_forward (model lm) input input_length of
        Inl e \<Rightarrow> Inl e
      | Inr logit \<Rightarrow>
          (case criterion_call (criterion lm) logit labels of
             Inl e \<Rightarrow> Inl e
           | Inr (loss, each_seq_loss_in_batch) \<Rightarrow>
               (let total_ppl =
                      (if length_normalized_loss lm then torch_exp loss
                       else torch_div (torch_mul loss (int (length input)))
                              (torch_sum labels_length));
                    ppl = map torch_exp each_seq_loss_in_batch
                in Inr (loss, ppl, total_ppl))))"

text \<open>\<^verbatim>\<open>RNNLM.forward\<close> (lines 119 to 144): the assertion on the four batch dimensions,
  a chained comparison, then the body.\<close>

definition RNNLM_forward ::
  "(label_smoothing_loss \<Rightarrow> vec list list \<Rightarrow> int list list \<Rightarrow> error + (fl \<times> fl list))
     \<Rightarrow> rnnlm \<Rightarrow> int list list \<Rightarrow> int list \<Rightarrow> int list list \<Rightarrow> int list
     \<Rightarrow> error + (fl \<times> fl list \<times> fl)" where
  "RNNLM_forward criterion_call lm input input_length labels labels_length =
     (if length input = length input_length \<and> length input_length = length labels
         \<and> length labels = length labels_length
      then RNNLM_forward_body criterion_call lm input input_length labels labels_length
      else Inl AssertionError)"

text \<open>\<^verbatim>\<open>RNNLM.forward_step\<close> (lines 146 to 153): \<^verbatim>\<open>return o, s[0], s[1]\<close>.\<close>

definition RNNLM_forward_step ::
  "rnnlm \<Rightarrow> int list list \<Rightarrow> int list \<Rightarrow> vec list list \<Rightarrow> vec list list
     \<Rightarrow> error + (vec list list \<times> tensor \<times> tensor)" where
  "RNNLM_forward_step lm input seq_len state_m state_c =
     (case enc_forward_step (model lm) input seq_len state_m state_c of
        Inl e \<Rightarrow> Inl e
      | Inr (o_, s) \<Rightarrow>
          (case state_index s 0 of
             Inl e \<Rightarrow> Inl e
           | Inr s0 \<Rightarrow>
               (case state_index s 1 of
                  Inl e \<Rightarrow> Inl e
                | Inr s1 \<Rightarrow> Inr (o_, s0, s1))))"

section \<open>Library modules used by \<^verbatim>\<open>RNNEncoder\<close>\<close>

text \<open>Mapping a function that can raise over a list: the first error wins.\<close>

fun traverse :: "('a \<Rightarrow> error + 'b) \<Rightarrow> 'a list \<Rightarrow> error + 'b list" where
  "traverse f [] = Inr []"
| "traverse f (x # xs) =
     (case f x of
        Inl e \<Rightarrow> Inl e
      | Inr y \<Rightarrow> (case traverse f xs of Inl e \<Rightarrow> Inl e | Inr ys \<Rightarrow> Inr (y # ys)))"

text \<open>\<^verbatim>\<open>nn.Embedding(vocab_size, input_nodes)\<close>: the table has one row per token id; an id
  outside the table raises IndexError.\<close>

definition embedding_row :: "vec list \<Rightarrow> int \<Rightarrow> error + vec" where
  "embedding_row weight i =
     (if 0 \<le> i \<and> i < int (length weight) then Inr (weight ! nat i) else Inl IndexError)"

definition Embedding_call :: "vec list \<Rightarrow> int list list \<Rightarrow> error + vec list list" where
  "Embedding_call weight input = traverse (traverse (embedding_row weight)) input"

text \<open>\<^verbatim>\<open>nn.Linear(output_nodes, vocab_size)\<close>, applied to the last dimension; a vector of
  another length than \<^verbatim>\<open>in_features\<close> raises RuntimeError.\<close>

record linear =
  in_features :: nat
  weight :: "vec list"
  bias :: vec

definition linear_vec :: "linear \<Rightarrow> vec \<Rightarrow> error + vec" where
  "linear_vec L h =
     (if length h = in_features L
      then Inr (map (\<lambda>(w, b). sum_list (map (\<lambda>(a, c). a * c) (zip w h)) + b)
                  (zip (weight L) (bias L)))
      else Inl RuntimeError)"

definition Linear_call :: "linear \<Rightarrow> vec list list \<Rightarrow> error + vec list list" where
  "Linear_call L x = traverse (traverse (linear_vec L)) x"

text \<open>The log-softmax of one vector.\<close>

definition log_softmax_vec :: "vec \<Rightarrow> vec" where
  "log_softmax_vec xs = map (\<lambda>x. x - ln (sum_list (map exp xs))) xs"

text \<open>The log-softmax of a matrix along its first dimension.\<close>

definition log_softmax_rows :: "vec list \<Rightarrow> vec list" where
  "log_softmax_rows rows =
     transpose01 (length rows) (map log_softmax_vec (transpose01 (dim1 rows) rows))"

text \<open>\<^verbatim>\<open>F.log_softmax(x, dim)\<close> on a tensor of three dimensions: \<open>dim\<close> must lie in
  \<open>[-3, 2]\<close>, otherwise PyTorch raises IndexError (dimension out of range).\<close>

definition F_log_softmax :: "vec list list \<Rightarrow> int \<Rightarrow> error + vec list list" where
  "F_log_softmax x d =
     (if d = 2 \<or> d = - 1 then Inr (map (map log_softmax_vec) x)
      else if d = 1 \<or> d = - 2 then Inr (map log_softmax_rows x)
      else if d = 0 \<or> d = - 3
        then Inr (transpose01 (length x) (map log_softmax_rows (transpose01 (dim1 x) x)))
      else Inl IndexError)"

section \<open>The adaptive log-softmax\<close>

text \<open>
  Modelled from the spec: \<^verbatim>\<open>models/adaptive_softmax.py\<close> (class \<^verbatim>\<open>AdaptiveLogSoftmax\<close>) is
  not among the sources. Following section 4.3: the head scores the \<open>c\<^sub>1\<close> head classes and
  one selector class per tail cluster; tail cluster \<open>i\<close> scores its own classes; the
  log-probability of a tail class is the selector's log-probability plus the class's
  log-probability inside its cluster. \<open>head_logits\<close> and \<open>tail_logits\<close> stand for the
  projections with their weights.
\<close>

record adaptive_log_softmax =
  head_size :: nat
  n_clusters :: nat
  head_logits :: "vec \<Rightarrow> vec"
  tail_logits :: "nat \<Rightarrow> vec \<Rightarrow> vec"

text \<open>Modelled from the spec: the dense log-probabilities of one hidden vector, the head
  classes first, then the classes of each cluster.\<close>

definition log_probabilities :: "adaptive_log_softmax \<Rightarrow> vec \<Rightarrow> vec" where
  "log_probabilities A h =
     (let head = log_softmax_vec (head_logits A h)
      in take (head_size A) head
         @ concat (map (\<lambda>i. map (\<lambda>z. head ! (head_size A + i) + z)
                                (log_softmax_vec (tail_logits A i h)))
                     [0..<n_clusters A]))"

text \<open>Modelled from the spec: the call of the adaptive module returns the dense
  log-probabilities of every row. The source calls it with the keyword \<^verbatim>\<open>dim=2\<close> (line 70)
  and without (line 94); both calls are taken to be accepted.\<close>

definition AdaptiveLogSoftmax_call ::
  "adaptive_log_softmax \<Rightarrow> vec list list \<Rightarrow> (string \<times> int) list \<Rightarrow> error + vec list list" where
  "AdaptiveLogSoftmax_call A x kwargs = Inr (map (map (log_probabilities A)) x)"

section \<open>The module \<^verbatim>\<open>self.log_softmax\<close>\<close>

text \<open>\<^verbatim>\<open>nn.LogSoftmax(dim)\<close>: its method \<^verbatim>\<open>forward(self, input)\<close> has no other parameter,
  so a call with a keyword argument raises TypeError.\<close>

definition LogSoftmax_call ::
  "int \<Rightarrow> vec list list \<Rightarrow> (string \<times> int) list \<Rightarrow> error + vec list list" where
  "LogSoftmax_call d x kwargs = (if kwargs = [] then F_log_softmax x d else Inl TypeError)"

text \<open>The attribute holds one of the two modules (lines 34 to 44).\<close>

datatype log_softmax_module =
    LogSoftmax int
  | AdaptiveLogSoftmax adaptive_log_softmax

fun log_softmax_call ::
  "log_softmax_module \<Rightarrow> vec list list \<Rightarrow> (string \<times> int) list \<Rightarrow> error + vec list list" where
  "log_softmax_call (LogSoftmax d) x kwargs = LogSoftmax_call d x kwargs"
| "log_softmax_call (AdaptiveLogSoftmax A) x kwargs = AdaptiveLogSoftmax_call A x kwargs"

section \<open>The stacked recurrent layer\<close>

text \<open>
  Modelled from the spec: \<^verbatim>\<open>models/rnn.py\<close> (class \<^verbatim>\<open>StackedRNNLayer\<close>) is not among the
  sources; only its construction (line 29) and its two calls (lines 63 and 87) are. The
  definitions follow section 4.2. The two supported cell types are the GRU-style cell, with
  a single state tensor, and the LSTM-style cell, with a memory and a cell state; the
  cells themselves are any functions: \<open>gru_cell l x m = (y, m')\<close> and
  \<open>lstm_cell l x (m, c) = (y, (m', c'))\<close> give, for layer \<open>l\<close>, the input \<open>x\<close> and the state
  of one batch element, the output and the candidate state. \<open>dropout\<close> is what is applied
  between two layers (the identity in evaluation mode and at rate 0).
\<close>

record stacked_rnn_layer =
  cell_type :: string
  rnn_input_nodes :: nat
  rnn_hidden_nodes :: nat
  rnn_output_nodes :: nat
  rnn_n_layers :: nat
  gru_cell :: "nat \<Rightarrow> vec \<Rightarrow> vec \<Rightarrow> vec \<times> vec"
  lstm_cell :: "nat \<Rightarrow> vec \<Rightarrow> vec \<times> vec \<Rightarrow> vec \<times> (vec \<times> vec)"
  dropout :: "vec \<Rightarrow> vec"

text \<open>Modelled from the spec: the uniform state and transition interface. The state of
  every cell type is the pair \<open>(m, c)\<close> that the encoder passes in (line 87); the GRU-style
  cell works on \<open>m\<close> and hands \<open>c\<close> on as it is. Any other cell type than the two is not
  supported.\<close>

definition supported_cell :: "stacked_rnn_layer \<Rightarrow> bool" where
  "supported_cell R = (cell_type R = ''gru'' \<or> cell_type R = ''lstm'')"

definition transition ::
  "stacked_rnn_layer \<Rightarrow> nat \<Rightarrow> vec \<Rightarrow> vec \<times> vec \<Rightarrow> vec \<times> (vec \<times> vec)" where
  "transition R l x s =
     (case s of
        (m, c) \<Rightarrow>
          (if cell_type R = ''lstm'' then lstm_cell R l x (m, c)
           else (case gru_cell R l x m of (y, m') \<Rightarrow> (y, (m', c)))))"

text \<open>Modelled from the spec: the candidate state where the mask is false, the previous
  state unchanged where it is true.\<close>

definition select :: "bool \<Rightarrow> 'a \<Rightarrow> 'a \<Rightarrow> 'a" where
  "select pad previous candidate = (if pad then previous else candidate)"

definition cell_step ::
  "stacked_rnn_layer \<Rightarrow> nat \<Rightarrow> bool \<Rightarrow> vec \<Rightarrow> vec \<times> vec \<Rightarrow> vec \<times> (vec \<times> vec)" where
  "cell_step R l pad x s =
     (case transition R l x s of (y, candidate) \<Rightarrow> (y, select pad s candidate))"

text \<open>Modelled from the spec: one layer at one timestep, over the batch.\<close>

definition layer_step ::
  "stacked_rnn_layer \<Rightarrow> nat \<Rightarrow> bool list \<Rightarrow> vec list \<Rightarrow> (vec \<times> vec) list
     \<Rightarrow> vec list \<times> (vec \<times> vec) list" where
  "layer_step R l pads xs ss =
     (let r = map (\<lambda>(pad, x, s). cell_step R l pad x s) (zip pads (zip xs ss))
      in (map fst r, map snd r))"

text \<open>Modelled from the spec: all layers at one timestep, from layer \<open>l\<close> on. The output
  of a layer, after dropout, is the input of the next; the output of the last layer is
  the output.\<close>

fun layers_step ::
  "stacked_rnn_layer \<Rightarrow> nat \<Rightarrow> bool list \<Rightarrow> vec list \<Rightarrow> (vec \<times> vec) list list
     \<Rightarrow> vec list \<times> (vec \<times> vec) list list" where
  "layers_step R l pads xs [] = (xs, [])"
| "layers_step R l pads xs (ss # rest) =
     (case layer_step R l pads xs ss of
        (ys, ss') \<Rightarrow>
          (case layers_step R (Suc l) pads (if rest = [] then ys else map (dropout R) ys) rest of
             (zs, rest') \<Rightarrow> (zs, ss' # rest')))"

text \<open>Modelled from the spec: the shapes a timestep needs, batch and feature dimensions
  of the input and layer count, batch and hidden size of the state.\<close>

definition step_shapes_ok ::
  "stacked_rnn_layer \<Rightarrow> bool list \<Rightarrow> vec list \<Rightarrow> (vec \<times> vec) list list \<Rightarrow> bool" where
  "step_shapes_ok R pads xs st =
     (length pads = length xs
      \<and> list_all (\<lambda>x. length x = rnn_input_nodes R) xs
      \<and> length st = rnn_n_layers R
      \<and> list_all (\<lambda>ss. length ss = length xs
            \<and> list_all (\<lambda>(m, c). length m = rnn_hidden_nodes R
                                  \<and> length c = rnn_hidden_nodes R) ss) st)"

text \<open>Modelled from the spec: one timestep with its checks (a cell type that is not
  supported is a ConfigurationError, which surfaces here at the first timestep), and the
  loop over time, shared by the full-sequence and the single-step use.\<close>

definition rnn_step ::
  "stacked_rnn_layer \<Rightarrow> bool list \<Rightarrow> vec list \<Rightarrow> (vec \<times> vec) list list
     \<Rightarrow> error + (vec list \<times> (vec \<times> vec) list list)" where
  "rnn_step R pads xs st =
     (if supported_cell R
      then (if step_shapes_ok R pads xs st then Inr (layers_step R 0 pads xs st)
            else Inl ShapeMismatch)
      else Inl ConfigurationError)"

fun rnn_time ::
  "stacked_rnn_layer \<Rightarrow> vec list list \<Rightarrow> bool list list \<Rightarrow> (vec \<times> vec) list list
     \<Rightarrow> error + (vec list list \<times> (vec \<times> vec) list list)" where
  "rnn_time R [] [] st = Inr ([], st)"
| "rnn_time R (xs # input) (pads # paddings) st =
     (case rnn_step R pads xs st of
        Inl e \<Rightarrow> Inl e
      | Inr (ys, st') \<Rightarrow>
          (case rnn_time R input paddings st' of
             Inl e \<Rightarrow> Inl e
           | Inr (outs, st'') \<Rightarrow> Inr (ys # outs, st'')))"
| "rnn_time R [] (pads # paddings) st = Inl ShapeMismatch"
| "rnn_time R (xs # input) [] st = Inl ShapeMismatch"

text \<open>Modelled from the spec: the state crosses the interface as two tensors
  \<^verbatim>\<open>[layer, batch, hidden]\<close>, and is zero at the start of a sequence.\<close>

definition pack_state :: "vec list list \<Rightarrow> vec list list \<Rightarrow> (vec \<times> vec) list list" where
  "pack_state state_m state_c = map (\<lambda>(ms, cs). zip ms cs) (zip state_m state_c)"

definition unpack_state :: "(vec \<times> vec) list list \<Rightarrow> vec list list \<times> vec list list" where
  "unpack_state st = (map (map fst) st, map (map snd) st)"

definition state_pair_ok :: "vec list list \<Rightarrow> vec list list \<Rightarrow> bool" where
  "state_pair_ok state_m state_c =
     (length state_m = length state_c
      \<and> list_all (\<lambda>(ms, cs). length ms = length cs) (zip state_m state_c))"

definition zero_state :: "stacked_rnn_layer \<Rightarrow> nat \<Rightarrow> (vec \<times> vec) list list" where
  "zero_state R B =
     replicate (rnn_n_layers R)
       (replicate B (replicate (rnn_hidden_nodes R) 0, replicate (rnn_hidden_nodes R) 0))"

text \<open>Modelled from the spec: the call \<^verbatim>\<open>self.stacked_rnn(input, padding[, state])\<close> on a
  time-major input; without a state the layers start from zero. It returns the output and
  the final state.\<close>

definition StackedRNNLayer_forward ::
  "stacked_rnn_layer \<Rightarrow> vec list list \<Rightarrow> bool list list
     \<Rightarrow> (vec list list \<times> vec list list) option
     \<Rightarrow> error + (vec list list \<times> (vec list list \<times> vec list list))" where
  "StackedRNNLayer_forward R input paddings state =
     (case (case state of
              None \<Rightarrow> Inr (zero_state R (dim1 input))
            | Some (state_m, state_c) \<Rightarrow>
                (if state_pair_ok state_m state_c then Inr (pack_state state_m state_c)
                 else Inl ShapeMismatch)) of
        Inl e \<Rightarrow> Inl e
      | Inr st \<Rightarrow>
          (case rnn_time R input paddings st of
             Inl e \<Rightarrow> Inl e
           | Inr (outs, st') \<Rightarrow> Inr (outs, unpack_state st')))"

text \<open>Modelled from the spec: the two entry points of section 4.2.\<close>

definition encode_sequence ::
  "stacked_rnn_layer \<Rightarrow> vec list list \<Rightarrow> bool list list
     \<Rightarrow> error + (vec list list \<times> (vec list list \<times> vec list list))" where
  "encode_sequence R input paddings = StackedRNNLayer_forward R input paddings None"

definition step ::
  "stacked_rnn_layer \<Rightarrow> vec list \<Rightarrow> bool list \<Rightarrow> vec list list \<times> vec list list
     \<Rightarrow> error + (vec list list \<times> (vec list list \<times> vec list list))" where
  "step R xs pads prior_state = StackedRNNLayer_forward R [xs] [pads] (Some prior_state)"

text \<open>Modelled from the spec: a caller stepping through a sequence, threading the returned
  state back in as the prior state.\<close>

fun steps ::
  "stacked_rnn_layer \<Rightarrow> vec list list \<Rightarrow> bool list list \<Rightarrow> vec list list \<times> vec list list
     \<Rightarrow> error + (vec list list \<times> (vec list list \<times> vec list list))" where
  "steps R [] [] prior_state = Inr ([], prior_state)"
| "steps R (xs # input) (pads # paddings) prior_state =
     (case step R xs pads prior_state of
        Inl e \<Rightarrow> Inl e
      | Inr (ys, new_state) \<Rightarrow>
          (case steps R input paddings new_state of
             Inl e \<Rightarrow> Inl e
           | Inr (outs, final_state) \<Rightarrow> Inr (ys @ outs, final_state)))"
| "steps R [] (pads # paddings) prior_state = Inl ShapeMismatch"
| "steps R (xs # input) [] prior_state = Inl ShapeMismatch"

section \<open>The class \<^verbatim>\<open>RNNEncoder\<close>\<close>

record rnn_encoder =
  lookup_table :: "vec list"
  stacked_rnn :: stacked_rnn_layer
  adaptive_softmax :: bool
  out :: "linear option"
  log_softmax :: log_softmax_module

text \<open>The learned parameters, which the constructor creates: the embedding table
  \<^verbatim>\<open>[vocab_size, input_nodes]\<close>, the cells, the projection \<^verbatim>\<open>[vocab_size, output_nodes]\<close>
  with its bias, and the adaptive module built from \<^verbatim>\<open>cutoffs\<close> and \<^verbatim>\<open>div_value\<close>.\<close>

record encoder_weights =
  w_embedding :: "vec list"
  w_gru_cell :: "nat \<Rightarrow> vec \<Rightarrow> vec \<Rightarrow> vec \<times> vec"
  w_lstm_cell :: "nat \<Rightarrow> vec \<Rightarrow> vec \<times> vec \<Rightarrow> vec \<times> (vec \<times> vec)"
  w_dropout :: "vec \<Rightarrow> vec"
  w_out :: "vec list"
  w_out_bias :: vec
  w_adaptive :: adaptive_log_softmax

text \<open>
  \<^verbatim>\<open>RNNEncoder.__init__\<close> (lines 13 to 44). In the plain mode the module is
  \<^verbatim>\<open>nn.LogSoftmax(dim=vocab_size)\<close> (line 44); \<^verbatim>\<open>self.out\<close> exists in that mode only.
\<close>

definition RNNEncoder_init ::
  "nat \<Rightarrow> nat \<Rightarrow> nat \<Rightarrow> nat \<Rightarrow> nat \<Rightarrow> string \<Rightarrow> bool \<Rightarrow> encoder_weights \<Rightarrow> rnn_encoder" where
  "RNNEncoder_init vocab_size n_layers input_nodes hidden_nodes output_nodes ctype adaptive W =
     \<lparr>lookup_table = w_embedding W,
      stacked_rnn =
        \<lparr>cell_type = ctype, rnn_input_nodes = input_nodes, rnn_hidden_nodes = hidden_nodes,
         rnn_output_nodes = output_nodes, rnn_n_layers = n_layers,
         gru_cell = w_gru_cell W, lstm_cell = w_lstm_cell W, dropout = w_dropout W\<rparr>,
      adaptive_softmax = adaptive,
      out = (if adaptive then None
             else Some \<lparr>in_features = output_nodes, weight = w_out W, bias = w_out_bias W\<rparr>),
      log_softmax = (if adaptive then AdaptiveLogSoftmax (w_adaptive W)
                     else LogSoftmax (int vocab_size))\<rparr>"

text \<open>Lines 66 and 67 (and 90 and 91): the projection, in the plain mode only.\<close>

definition project :: "rnn_encoder \<Rightarrow> vec list list \<Rightarrow> error + vec list list" where
  "project enc x =
     (if \<not> adaptive_softmax enc
      then (case out enc of None \<Rightarrow> Inl AttributeError | Some L \<Rightarrow> Linear_call L x)
      else Inr x)"

text \<open>\<^verbatim>\<open>RNNEncoder.forward\<close> (lines 46 to 71). The module is called with the keyword
  \<^verbatim>\<open>dim=2\<close> (line 70).\<close>

definition RNNEncoder_forward ::
  "rnn_encoder \<Rightarrow> int list list \<Rightarrow> int list \<Rightarrow> error + vec list list" where
  "RNNEncoder_forward enc input seq_len =
     (case Embedding_call (lookup_table enc) input of
        Inl e \<Rightarrow> Inl e
      | Inr embeddding \<Rightarrow>
          (case padding seq_len of
             Inl e \<Rightarrow> Inl e
           | Inr pad \<Rightarrow>
               (case StackedRNNLayer_forward (stacked_rnn enc)
                       (transpose01 (dim1 embeddding) embeddding) pad None of
                  Inl e \<Rightarrow> Inl e
                | Inr (o1, s) \<Rightarrow>
                    (case project enc o1 of
                       Inl e \<Rightarrow> Inl e
                     | Inr o2 \<Rightarrow>
                         log_softmax_call (log_softmax enc) (transpose01 (dim1 o2) o2)
                           [(''dim'', 2)]))))"

text \<open>\<^verbatim>\<open>RNNEncoder.forward_step\<close> (lines 73 to 95). The module is called without a
  keyword (line 94).\<close>

definition RNNEncoder_forward_step ::
  "rnn_encoder \<Rightarrow> int list list \<Rightarrow> int list \<Rightarrow> vec list list \<Rightarrow> vec list list
     \<Rightarrow> error + (vec list list \<times> (vec list list \<times> vec list list))" where
  "RNNEncoder_forward_step enc input seq_len state_m state_c =
     (case Embedding_call (lookup_table enc) input of
        Inl e \<Rightarrow> Inl e
      | Inr embeddding \<Rightarrow>
          (case padding seq_len of
             Inl e \<Rightarrow> Inl e
           | Inr pad \<Rightarrow>
               (case StackedRNNLayer_forward (stacked_rnn enc)
                       (transpose01 (dim1 embeddding) embeddding) pad
                       (Some (state_m, state_c)) of
                  Inl e \<Rightarrow> Inl e
                | Inr (o1, s) \<Rightarrow>
                    (case project enc o1 of
                       Inl e \<Rightarrow> Inl e
                     | Inr o2 \<Rightarrow>
                         (case log_softmax_call (log_softmax enc)
                                 (transpose01 (dim1 o2) o2) [] of
                            Inl e \<Rightarrow> Inl e
                          | Inr o3 \<Rightarrow> Inr (o3, s))))))"

text \<open>An \<^verbatim>\<open>RNNEncoder\<close> as the \<^verbatim>\<open>lm_encoder\<close> of an \<^verbatim>\<open>RNNLM\<close>: the state it returns is
  the tuple of the two state tensors.\<close>

definition as_module :: "rnn_encoder \<Rightarrow> lm_encoder" where
  "as_module enc =
     \<lparr>enc_forward = RNNEncoder_forward enc,
      enc_forward_step = (\<lambda>input seq_len state_m state_c.
         (case RNNEncoder_forward_step enc input seq_len state_m state_c of
            Inl e \<Rightarrow> Inl e
          | Inr (o3, (new_m, new_c)) \<Rightarrow>
              Inr (o3, StateTuple [tensor_of_state new_m, tensor_of_state new_c])))\<rparr>"

section \<open>Stepping through a batch\<close>

text \<open>The ids of timestep \<open>t\<close> as a one-step input \<^verbatim>\<open>[batch, 1]\<close>.\<close>

definition column :: "nat \<Rightarrow> int list list \<Rightarrow> int list list" where
  "column t input = map (\<lambda>row. [row ! t]) input"

text \<open>A caller stepping through a batch with \<^verbatim>\<open>forward_step\<close>, one input and one
  \<^verbatim>\<open>seq_len\<close> per step, threading the returned state back in.\<close>

fun RNNEncoder_steps ::
  "rnn_encoder \<Rightarrow> int list list list \<Rightarrow> int list list \<Rightarrow> vec list list \<times> vec list list
     \<Rightarrow> error + (vec list list list \<times> (vec list list \<times> vec list list))" where
  "RNNEncoder_steps enc [] [] s = Inr ([], s)"
| "RNNEncoder_steps enc (i # inputs) (l # seq_lens) s =
     (case RNNEncoder_forward_step enc i l (fst s) (snd s) of
        Inl e \<Rightarrow> Inl e
      | Inr (o3, s') \<Rightarrow>
          (case RNNEncoder_steps enc inputs seq_lens s' of
             Inl e \<Rightarrow> Inl e
           | Inr (os, final_state) \<Rightarrow> Inr (o3 # os, final_state)))"
| "RNNEncoder_steps enc [] (l # seq_lens) s = Inl ShapeMismatch"
| "RNNEncoder_steps enc (i # inputs) [] s = Inl ShapeMismatch"

text \<open>The outputs of the steps, \<^verbatim>\<open>[batch, 1, vocab]\<close> each, joined along time.\<close>

definition time_concat :: "nat \<Rightarrow> vec list list list \<Rightarrow> vec list list" where
  "time_concat B os = map (\<lambda>b. concat (map (\<lambda>o3. o3 ! b) os)) [0..<B]"

text \<open>Lines 69 and 70 (92 and 94) in the adaptive mode: the transposition and the
  log-probabilities of every row.\<close>

definition post :: "adaptive_log_softmax \<Rightarrow> vec list list \<Rightarrow> vec list list" where
  "post A o1 = map (map (log_probabilities A)) (transpose01 (dim1 o1) o1)"

section \<open>Auxiliary definitions for the statements\<close>

text \<open>The batch without its \<open>b\<close>-th sequence.\<close>

definition remove_nth :: "nat \<Rightarrow> 'a list \<Rightarrow> 'a list" where
  "remove_nth b xs = take b xs @ drop (Suc b) xs"

text \<open>An encoder that returns the same log-probabilities on every call and hands the
  state back unchanged; it stands for \<^verbatim>\<open>lm_encoder\<close> where a concrete module is needed.\<close>

definition const_encoder :: "vec list list \<Rightarrow> lm_encoder" where
  "const_encoder logit =
     \<lparr>enc_forward = (\<lambda>input seq_len. Inr logit),
      enc_forward_step = (\<lambda>input seq_len state_m state_c.
         Inr (logit, StateTuple [tensor_of_state state_m, tensor_of_state state_c]))\<rparr>"


text \<open>Log-probabilities of a batch of two sequences of one position, vocabulary 2, and
  the same with other values for the second sequence.\<close>

definition two_logits :: "vec list list" where
  "two_logits = [[[- 1, - 2]], [[- 1, - 2]]]"

definition other_logits :: "vec list list" where
  "other_logits = [[[- 1, - 2]], [[- 5, - 7]]]"

section \<open>A small encoder for concrete runs\<close>

text \<open>A single-state cell that adds its input to its state and outputs the sum, and a
  two-state cell that does the same on \<open>m\<close> and subtracts the input from \<open>c\<close>.\<close>

definition acc_cell :: "nat \<Rightarrow> vec \<Rightarrow> vec \<Rightarrow> vec \<times> vec" where
  "acc_cell l x m = (map (\<lambda>(a, b). a + b) (zip x m), map (\<lambda>(a, b). a + b) (zip x m))"

definition acc2_cell :: "nat \<Rightarrow> vec \<Rightarrow> vec \<times> vec \<Rightarrow> vec \<times> (vec \<times> vec)" where
  "acc2_cell l x s =
     (case s of (m, c) \<Rightarrow>
        (map (\<lambda>(a, b). a + b) (zip x m),
         (map (\<lambda>(a, b). a + b) (zip x m), map (\<lambda>(a, b). b - a) (zip x c))))"

definition example_weights :: "nat \<Rightarrow> encoder_weights" where
  "example_weights V =
     \<lparr>w_embedding = replicate V [1],
      w_gru_cell = acc_cell,
      w_lstm_cell = acc2_cell,
      w_dropout = (\<lambda>v. v),
      w_out = replicate V [1],
      w_out_bias = replicate V 0,
      w_adaptive = \<lparr>head_size = V, n_clusters = 0, head_logits = (\<lambda>h. replicate V 0),
                    tail_logits = (\<lambda>i h. [])\<rparr>\<rparr>"

text \<open>One layer, all sizes 1, vocabulary \<open>V\<close>, the default cell type.\<close>

definition example_encoder :: "nat \<Rightarrow> bool \<Rightarrow> rnn_encoder" where
  "example_encoder V adaptive = RNNEncoder_init V 1 1 1 1 ''gru'' adaptive (example_weights V)"

text \<open>The same with the LSTM-style cell, in the adaptive mode.\<close>

definition example_lstm_encoder :: "nat \<Rightarrow> rnn_encoder" where
  "example_lstm_encoder V = RNNEncoder_init V 1 1 1 1 ''lstm'' True (example_weights V)"

section \<open>Properties of the padding mask\<close>

lemma fold_max_ge: "(a::int) \<le> fold max xs a"
  by (induction xs arbitrary: a) (auto intro: order_trans [OF max.cobounded2])

lemma fold_max_mem: "x \<in> set xs \<Longrightarrow> (x::int) \<le> fold max xs a"
proof (induction xs arbitrary: a)
  case Nil
  then show ?case by simp
next
  case (Cons y ys)
  show ?case
  proof (cases "x = y")
    case True
    have "y \<le> max y a" by simp
    also have "\<dots> \<le> fold max ys (max y a)" by (rule fold_max_ge)
    finally show ?thesis using True by simp
  next
    case False
    with Cons.prems have "x \<in> set ys" by simp
    then show ?thesis using Cons.IH by simp
  qed
qed

text \<open>Every entry of the mask the code builds: position \<open>t\<close> of sequence \<open>b\<close> is marked
  exactly when \<open>seq_len ! b < t\<close>, and the mask has \<open>max seq_len\<close> rows.\<close>

lemma padding_entry:
  assumes "padding seq_len = Inr P"
  shows "length P = nat (fold max (tl seq_len) (hd seq_len))"
    and "t < length P \<Longrightarrow> length (P ! t) = length seq_len"
    and "t < length P \<Longrightarrow> b < length seq_len \<Longrightarrow> P ! t ! b = (seq_len ! b < int t)"
proof -
  obtain x xs where sl: "seq_len = x # xs"
    using assms by (cases seq_len) (auto simp: padding_def)
  let ?n = "nat (fold max xs x)"
  have P: "P = transpose01 ?n (map (\<lambda>l. map (\<lambda>i. l < i) (map int [0..<?n])) seq_len)"
    using assms by (auto simp: sl padding_def torch_arange_def split: if_splits)
  show "length P = nat (fold max (tl seq_len) (hd seq_len))"
    by (simp add: P transpose01_def sl)
  show "t < length P \<Longrightarrow> length (P ! t) = length seq_len"
    by (simp add: P transpose01_def)
  show "t < length P \<Longrightarrow> b < length seq_len \<Longrightarrow> P ! t ! b = (seq_len ! b < int t)"
    by (simp add: P transpose01_def)
qed

text \<open>Once a position of a sequence is marked, every later position of it is marked.\<close>

lemma padding_monotonic:
  assumes "padding seq_len = Inr P" "t \<le> t'" "t' < length P" "b < length seq_len"
    "P ! t ! b"
  shows "P ! t' ! b"
  using assms padding_entry(3) [OF assms(1), of t b] padding_entry(3) [OF assms(1), of t' b]
  by auto

text \<open>
  Claim C2: for every valid length \<open>l\<close> with \<open>1 \<le> l \<le> T\<close>, the mask built inside the forward
  pass is true exactly at the positions \<open>t \<ge> l\<close> and false exactly at the positions \<open>t < l\<close>.

  The code compares with \<^verbatim>\<open>seq_len.unsqueeze(1) < ids\<close>, so it marks the positions
  \<open>t > l\<close>: position \<open>t = l\<close>, the first padded one, is not marked. For the lengths
  \<open>[1, 2]\<close> (so \<open>T = 2\<close>) the first sequence has \<open>l = 1\<close> and position \<open>t = 1 \<ge> l\<close>, where the
  claim wants true and the code computes false: no position of the batch is marked at all.
\<close>

theorem padding_first_padded_position_unmarked:
  "padding [1, 2] = Inr [[False, False], [False, False]]"
  by code_simp

section \<open>Properties of \<^verbatim>\<open>RNNLM\<close>\<close>

text \<open>The constructor passes the same switch to the wrapper and to the criterion.\<close>

lemma RNNLM_init_modes_agree:
  "length_normalized_loss (RNNLM_init V enc w nl) = ls_length_normalized (criterion (RNNLM_init V enc w nl))"
  by (simp add: RNNLM_init_def LabelSmoothingLoss_init_def)

text \<open>On finite values the operations are the real ones.\<close>

lemma torch_ops_finite:
  "torch_exp (Fin x) = Fin (exp x)"
  "n \<noteq> 0 \<Longrightarrow> torch_div (torch_mul (Fin x) k) n = Fin (x * of_int k / of_int n)"
  by simp_all

text \<open>The 64-bit sum is the sum when it fits.\<close>

lemma int64_in_range: "- (2 ^ 63) \<le> n \<Longrightarrow> n < 2 ^ 63 \<Longrightarrow> int64 n = n"
  by (simp add: int64_def)

text \<open>
  Claim C4: for every training forward call that returns, each per-sequence perplexity is
  the exponential of the per-sequence loss the criterion returned; the batch perplexity is
  the exponential of the scalar loss in length-normalised mode, and otherwise the scalar
  loss times the batch size divided by the sum of \<^verbatim>\<open>labels_length\<close> (a sum that is not
  zero and fits 64 bits). The exponential, the product and the quotient are those of the
  real numbers. The criterion is any function: the statement holds whatever
  \<^verbatim>\<open>LabelSmoothingLoss\<close> computes.
\<close>

theorem perplexity_tracks_normalization:
  assumes "RNNLM_forward crit lm input input_length labels labels_length
             = Inr (loss, ppl, total_ppl)"
  shows "\<exists>logit each.
           enc_forward (model lm) input input_length = Inr logit
         \<and> crit (criterion lm) logit labels = Inr (loss, each)
         \<and> length ppl = length each
         \<and> (\<forall>b x. b < length each \<and> each ! b = Fin x \<longrightarrow> ppl ! b = Fin (exp x))
         \<and> (\<forall>b. b < length each \<and> each ! b = NaN \<longrightarrow> ppl ! b = NaN)
         \<and> (\<forall>x. length_normalized_loss lm \<and> loss = Fin x \<longrightarrow> total_ppl = Fin (exp x))
         \<and> (\<forall>x. \<not> length_normalized_loss lm \<and> loss = Fin x
                \<and> sum_list labels_length \<noteq> 0
                \<and> - (2 ^ 63) \<le> sum_list labels_length \<and> sum_list labels_length < 2 ^ 63
              \<longrightarrow> total_ppl
                  = Fin (x * real (length input) / real_of_int (sum_list labels_length)))"
proof -
  obtain logit each where
    e: "enc_forward (model lm) input input_length = Inr logit"
    and c: "crit (criterion lm) logit labels = Inr (loss, each)"
    and p: "ppl = map torch_exp each"
    and t: "total_ppl =
             (if length_normalized_loss lm then torch_exp loss
              else torch_div (torch_mul loss (int (length input))) (torch_sum labels_length))"
    using assms
    by (auto simp: RNNLM_forward_def RNNLM_forward_body_def Let_def
             split: if_splits sum.splits prod.splits)
  have "\<forall>x. \<not> length_normalized_loss lm \<and> loss = Fin x
                \<and> sum_list labels_length \<noteq> 0
                \<and> - (2 ^ 63) \<le> sum_list labels_length \<and> sum_list labels_length < 2 ^ 63
              \<longrightarrow> total_ppl
                  = Fin (x * real (length input) / real_of_int (sum_list labels_length))"
    by (simp add: t torch_sum_def int64_in_range)
  then show ?thesis
    using e c by (simp add: p t)
qed

text \<open>Two runs on a batch of two sequences whose losses are 1 and 2, one in each
  mode.\<close>

lemma forward_run_sum:
  "RNNLM_forward LabelSmoothingLoss_forward (RNNLM_init 2 (const_encoder two_logits) 0 False)
       [[0], [0]] [1, 1] [[0], [1]] [1, 2] = Inr (Fin 3, [Fin (exp 1), Fin (exp 2)], Fin 2)"
  by (simp add: RNNLM_forward_def RNNLM_forward_body_def RNNLM_init_def const_encoder_def
        two_logits_def LabelSmoothingLoss_forward_def LabelSmoothingLoss_init_def
        seq_shape_ok_def label_ok_def seq_loss_def counted_def position_loss_def
        smoothed_target_def upt_conv_Cons torch_sum_def int64_def)

lemma forward_run_mean:
  "RNNLM_forward LabelSmoothingLoss_forward (RNNLM_init 2 (const_encoder two_logits) 0 True)
       [[0], [0]] [1, 1] [[0], [1]] [1, 2]
     = Inr (Fin (3 / 2), [Fin (exp 1), Fin (exp 2)], Fin (exp (3 / 2)))"
  by (simp add: RNNLM_forward_def RNNLM_forward_body_def RNNLM_init_def const_encoder_def
        two_logits_def LabelSmoothingLoss_forward_def LabelSmoothingLoss_init_def
        seq_shape_ok_def label_ok_def seq_loss_def counted_def position_loss_def
        smoothed_target_def upt_conv_Cons torch_sum_def int64_def)

theorem perplexity_tracks_normalization_witness:
  "RNNLM_forward LabelSmoothingLoss_forward (RNNLM_init 2 (const_encoder two_logits) 0 False)
       [[0], [0]] [1, 1] [[0], [1]] [1, 2] = Inr (Fin 3, [Fin (exp 1), Fin (exp 2)], Fin 2)
   \<and> RNNLM_forward LabelSmoothingLoss_forward (RNNLM_init 2 (const_encoder two_logits) 0 True)
       [[0], [0]] [1, 1] [[0], [1]] [1, 2]
     = Inr (Fin (3 / 2), [Fin (exp 1), Fin (exp 2)], Fin (exp (3 / 2)))
   \<and> Fin 2 = Fin (3 * real (length [[0], [0 :: int]]) / real_of_int (sum_list [1, 2]))
   \<and> torch_exp (Fin (3 / 2)) = Fin (exp (3 / 2))"
proof -
  let ?s = "RNNLM_init 2 (const_encoder two_logits) 0 False"
  let ?m = "RNNLM_init 2 (const_encoder two_logits) 0 True"
  have "\<forall>x. \<not> length_normalized_loss ?s \<and> Fin 3 = Fin x
                \<and> sum_list [1, 2] \<noteq> (0 :: int)
                \<and> - (2 ^ 63) \<le> sum_list [1, 2 :: int] \<and> sum_list [1, 2 :: int] < 2 ^ 63
              \<longrightarrow> Fin 2 = Fin (x * real (length [[0], [0 :: int]])
                                  / real_of_int (sum_list [1, 2]))"
    using perplexity_tracks_normalization [OF forward_run_sum] by (elim exE conjE)
  from this [rule_format, of 3]
  have a: "Fin 2 = Fin (3 * real (length [[0], [0 :: int]]) / real_of_int (sum_list [1, 2]))"
    by (simp add: RNNLM_init_def)
  have "\<forall>x. length_normalized_loss ?m \<and> Fin (3 / 2) = Fin x
              \<longrightarrow> Fin (exp (3 / 2)) = Fin (exp x)"
    using perplexity_tracks_normalization [OF forward_run_mean] by (elim exE conjE)
  from this [rule_format, of "3 / 2"]
  have b: "torch_exp (Fin (3 / 2)) = Fin (exp (3 / 2))"
    by (simp add: RNNLM_init_def)
  show ?thesis
    using forward_run_sum forward_run_mean a b by (intro conjI)
qed

text \<open>
  Claim C7: when the batch dimensions of input ids, input lengths, labels and label
  lengths are not all equal, the training forward call fails with the assertion's error and
  nothing else runs; when they are equal, the assertion passes and the call is the rest
  of the method (lines 137 to 144).
\<close>

theorem batch_size_assertion:
  "(\<not> (length input = length input_length \<and> length input_length = length labels
        \<and> length labels = length labels_length)
      \<longrightarrow> RNNLM_forward crit lm input input_length labels labels_length = Inl AssertionError)
   \<and> (length input = length input_length \<and> length input_length = length labels
        \<and> length labels = length labels_length
      \<longrightarrow> RNNLM_forward crit lm input input_length labels labels_length
            = RNNLM_forward_body crit lm input input_length labels labels_length)"
  by (simp add: RNNLM_forward_def)

theorem batch_size_assertion_witness:
  "RNNLM_forward LabelSmoothingLoss_forward (RNNLM_init 2 (const_encoder [[[0, 0]]]) 0 False)
       [[0]] [1, 1] [[0]] [1] = Inl AssertionError
   \<and> RNNLM_forward LabelSmoothingLoss_forward (RNNLM_init 2 (const_encoder [[[0, 0]]]) 0 False)
       [[0]] [1] [[0]] [1]
     = RNNLM_forward_body LabelSmoothingLoss_forward
         (RNNLM_init 2 (const_encoder [[[0, 0]]]) 0 False) [[0]] [1] [[0]] [1]"
  using
    batch_size_assertion [of "[[0]]" "[1, 1]" "[[0]]" "[1]" LabelSmoothingLoss_forward
      "RNNLM_init 2 (const_encoder [[[0, 0]]]) 0 False"]
    batch_size_assertion [of "[[0]]" "[1]" "[[0]]" "[1]" LabelSmoothingLoss_forward
      "RNNLM_init 2 (const_encoder [[[0, 0]]]) 0 False"]
  by simp

subsection \<open>The ignore id\<close>

text \<open>The number of counted positions depends on the labels only, and the loss of a
  sequence on the log-probabilities of its counted positions only.\<close>

lemma count_kept:
  "length lps = length ys \<Longrightarrow>
   length (filter (\<lambda>(lp, y). P y) (zip lps ys)) = length (filter P ys)"
  by (induction lps ys rule: list_induct2) simp_all

lemma count_kept_batch:
  assumes "length logit = length labels"
    "list_all (\<lambda>(lps, ys). length lps = length ys) (zip logit labels)"
  shows "map (\<lambda>(lps, ys). length (filter (\<lambda>(lp, y). P y) (zip lps ys))) (zip logit labels)
           = map (\<lambda>ys. length (filter P ys)) labels"
  using assms
  by (induction logit labels rule: list_induct2) (simp_all add: count_kept)

lemma kept_agree:
  assumes "length lps = length ys" "length lps' = length ys"
    "\<forall>t. t < length ys \<and> P (ys ! t) \<longrightarrow> lps' ! t = lps ! t"
  shows "filter (\<lambda>(lp, y). P y) (zip lps' ys) = filter (\<lambda>(lp, y). P y) (zip lps ys)"
proof -
  have "length lps = length ys" "length ys = length lps'" using assms by simp_all
  then show ?thesis using assms(3)
  proof (induction lps ys lps' rule: list_induct3)
    case Nil
    then show ?case by simp
  next
    case (Cons lp lps y ys lp' lps')
    have h: "P y \<Longrightarrow> lp' = lp" using Cons.prems [rule_format, of 0] by simp
    have t: "\<forall>t. t < length ys \<and> P (ys ! t) \<longrightarrow> lps' ! t = lps ! t"
    proof (intro allI impI)
      fix t assume "t < length ys \<and> P (ys ! t)"
      then show "lps' ! t = lps ! t" using Cons.prems [rule_format, of "Suc t"] by simp
    qed
    show ?case using Cons.IH [OF t] h by simp
  qed
qed

lemma seq_loss_kept:
  "seq_loss crit lps ys =
     (if ls_length_normalized crit
      then (if filter (\<lambda>(lp, y). y \<noteq> ignore_id crit) (zip lps ys) = [] then 0
            else sum_list (map (\<lambda>(lp, y). position_loss crit lp y)
                    (filter (\<lambda>(lp, y). y \<noteq> ignore_id crit) (zip lps ys)))
                 / real (length (filter (\<lambda>(lp, y). y \<noteq> ignore_id crit) (zip lps ys))))
      else sum_list (map (\<lambda>(lp, y). position_loss crit lp y)
             (filter (\<lambda>(lp, y). y \<noteq> ignore_id crit) (zip lps ys))))"
  by (simp add: seq_loss_def counted_def Let_def)

lemma seq_loss_agree:
  assumes "length lps = length ys" "length lps' = length ys"
    "\<forall>t. t < length ys \<and> ys ! t \<noteq> ignore_id crit \<longrightarrow> lps' ! t = lps ! t"
  shows "seq_loss crit lps' ys = seq_loss crit lps ys"
    and "counted crit lps' ys = counted crit lps ys"
  using kept_agree [OF assms(1,2), of "\<lambda>y. y \<noteq> ignore_id crit"] assms(3)
  by (simp_all add: seq_loss_def counted_def)

lemma LabelSmoothingLoss_forward_agree:
  assumes s: "length logit = length labels"
      "list_all (\<lambda>(lps, ys). seq_shape_ok crit lps ys) (zip logit labels)"
    and s': "length logit' = length labels"
      "list_all (\<lambda>(lps, ys). seq_shape_ok crit lps ys) (zip logit' labels)"
    and agree: "\<forall>b t. b < length labels \<and> t < length (labels ! b)
                  \<and> labels ! b ! t \<noteq> ignore_id crit
                \<longrightarrow> logit' ! b ! t = logit ! b ! t"
  shows "LabelSmoothingLoss_forward crit logit' labels
           = LabelSmoothingLoss_forward crit logit labels"
proof -
  have row: "\<And>b. b < length labels \<Longrightarrow>
      seq_loss crit (logit' ! b) (labels ! b) = seq_loss crit (logit ! b) (labels ! b)
      \<and> counted crit (logit' ! b) (labels ! b) = counted crit (logit ! b) (labels ! b)"
  proof -
    fix b assume b: "b < length labels"
    have l: "length (logit ! b) = length (labels ! b)"
      using s b by (auto simp: list_all_length seq_shape_ok_def)
    have l': "length (logit' ! b) = length (labels ! b)"
      using s' b by (auto simp: list_all_length seq_shape_ok_def)
    have a: "\<forall>t. t < length (labels ! b) \<and> labels ! b ! t \<noteq> ignore_id crit
               \<longrightarrow> logit' ! b ! t = logit ! b ! t"
      using agree b by simp
    show "seq_loss crit (logit' ! b) (labels ! b) = seq_loss crit (logit ! b) (labels ! b)
      \<and> counted crit (logit' ! b) (labels ! b) = counted crit (logit ! b) (labels ! b)"
      using seq_loss_agree [OF l l' a] by simp
  qed
  have per: "map (\<lambda>(lps, ys). seq_loss crit lps ys) (zip logit' labels)
           = map (\<lambda>(lps, ys). seq_loss crit lps ys) (zip logit labels)"
    using s(1) s'(1) row by (intro nth_equalityI) simp_all
  have cnt: "map (\<lambda>(lps, ys). length (counted crit lps ys)) (zip logit' labels)
           = map (\<lambda>(lps, ys). length (counted crit lps ys)) (zip logit labels)"
    using s(1) s'(1) row by (intro nth_equalityI) simp_all
  show ?thesis
    using s s' by (simp add: LabelSmoothingLoss_forward_def per cnt)
qed

text \<open>
  Claim C10: whatever arguments \<^verbatim>\<open>RNNLM\<close> is constructed with, its criterion has the ignore
  id \<open>-1\<close> (the constructor has no parameter for it), and in every training forward call on
  well-shaped inputs the label \<open>-1\<close>, and only it, is excluded from the loss: the
  per-sequence losses are the sums (or means) over the positions whose label is not \<open>-1\<close>,
  the normalisation count is the number of labels that are not \<open>-1\<close>, any other label
  outside the vocabulary makes the call fail, and the result does not depend on the
  log-probabilities at the positions labelled \<open>-1\<close>.
\<close>

theorem only_minus_one_is_excluded:
  assumes dims: "length input = length input_length" "length input_length = length labels"
      "length labels = length labels_length"
    and enc: "enc_forward enc input input_length = Inr logit"
    and enc': "enc_forward enc' input input_length = Inr logit'"
    and shape: "length logit = length labels"
      "list_all (\<lambda>(lps, ys). length lps = length ys \<and> list_all (\<lambda>lp. length lp = V) lps)
         (zip logit labels)"
    and shape': "length logit' = length labels"
      "list_all (\<lambda>(lps, ys). length lps = length ys \<and> list_all (\<lambda>lp. length lp = V) lps)
         (zip logit' labels)"
    and agree: "\<forall>b t. b < length labels \<and> t < length (labels ! b) \<and> labels ! b ! t \<noteq> - 1
                  \<longrightarrow> logit' ! b ! t = logit ! b ! t"
    and per: "per = map (\<lambda>(lps, ys).
                if nl
                then (if filter (\<lambda>(lp, y). y \<noteq> - 1) (zip lps ys) = [] then 0
                      else sum_list (map (\<lambda>(lp, y).
                               position_loss (criterion (RNNLM_init V enc w nl)) lp y)
                             (filter (\<lambda>(lp, y). y \<noteq> - 1) (zip lps ys)))
                           / real (length (filter (\<lambda>(lp, y). y \<noteq> - 1) (zip lps ys))))
                else sum_list (map (\<lambda>(lp, y).
                         position_loss (criterion (RNNLM_init V enc w nl)) lp y)
                       (filter (\<lambda>(lp, y). y \<noteq> - 1) (zip lps ys))))
              (zip logit labels)"
    and N: "N = sum_list (map (\<lambda>ys. length (filter (\<lambda>y. y \<noteq> - 1) ys)) labels)"
  shows "ignore_id (criterion (RNNLM_init V enc w nl)) = - 1
       \<and> (\<exists>total.
            RNNLM_forward LabelSmoothingLoss_forward (RNNLM_init V enc w nl)
                input input_length labels labels_length
              = (if list_all (list_all (\<lambda>y. y = - 1 \<or> (0 \<le> y \<and> y < int V))) labels
                 then Inr (Fin (if nl then (if N = 0 then 0 else sum_list per / real N)
                                else sum_list per),
                           map (\<lambda>x. Fin (exp x)) per, total)
                 else Inl DataRangeError))
       \<and> RNNLM_forward LabelSmoothingLoss_forward (RNNLM_init V enc' w nl)
              input input_length labels labels_length
           = RNNLM_forward LabelSmoothingLoss_forward (RNNLM_init V enc w nl)
              input input_length labels labels_length"
proof -
  let ?lm = "RNNLM_init V enc w nl" and ?lm' = "RNNLM_init V enc' w nl"
  let ?c = "criterion ?lm"
  have c': "criterion ?lm' = ?c" by (simp add: RNNLM_init_def)
  have ig: "ignore_id ?c = - 1" and nl: "ls_length_normalized ?c = nl"
    and V: "ls_vocab_size ?c = V"
    by (simp_all add: RNNLM_init_def LabelSmoothingLoss_init_def)
  have m: "model ?lm = enc" "model ?lm' = enc'"
    "length_normalized_loss ?lm = nl" "length_normalized_loss ?lm' = nl"
    by (simp_all add: RNNLM_init_def)
  have so: "\<And>lps ys. seq_shape_ok ?c lps ys
              = (length lps = length ys \<and> list_all (\<lambda>lp. length lp = V) lps)"
    by (simp add: seq_shape_ok_def V)
  have sh: "list_all (\<lambda>(lps, ys). seq_shape_ok ?c lps ys) (zip logit labels)"
    using shape(2) by (simp add: so)
  have sh': "list_all (\<lambda>(lps, ys). seq_shape_ok ?c lps ys) (zip logit' labels)"
    using shape'(2) by (simp add: so)
  have lo: "label_ok ?c = (\<lambda>y. y = - 1 \<or> (0 \<le> y \<and> y < int V))"
    by (rule ext) (simp add: label_ok_def ig V)
  have per0: "map (\<lambda>(lps, ys). seq_loss ?c lps ys) (zip logit labels) = per"
    unfolding per seq_loss_kept ig nl ..
  have eqlen: "list_all (\<lambda>(lps, ys). length lps = length ys) (zip logit labels)"
    using shape(2) by (auto simp: list_all_iff)
  have n0: "sum_list (map (\<lambda>(lps, ys). length (counted ?c lps ys)) (zip logit labels)) = N"
    unfolding N counted_def ig
    using count_kept_batch [OF shape(1) eqlen, of "\<lambda>y. y \<noteq> - 1"] by simp
  have crit: "LabelSmoothingLoss_forward ?c logit labels
      = (if list_all (list_all (\<lambda>y. y = - 1 \<or> (0 \<le> y \<and> y < int V))) labels
         then Inr (Fin (if nl then (if N = 0 then 0 else sum_list per / real N)
                        else sum_list per), map Fin per)
         else Inl DataRangeError)"
    using shape(1) sh by (simp add: LabelSmoothingLoss_forward_def Let_def per0 n0 nl lo)
  have ag: "\<forall>b t. b < length labels \<and> t < length (labels ! b)
                  \<and> labels ! b ! t \<noteq> ignore_id ?c
                \<longrightarrow> logit' ! b ! t = logit ! b ! t"
    using agree by (simp add: ig)
  have crit': "LabelSmoothingLoss_forward ?c logit' labels
                 = LabelSmoothingLoss_forward ?c logit labels"
    by (rule LabelSmoothingLoss_forward_agree [OF shape(1) sh shape'(1) sh' ag])
  have fw: "RNNLM_forward LabelSmoothingLoss_forward ?lm input input_length labels labels_length
      = (case LabelSmoothingLoss_forward ?c logit labels of
           Inl e \<Rightarrow> Inl e
         | Inr (loss, each) \<Rightarrow>
             Inr (loss, map torch_exp each,
                  if nl then torch_exp loss
                  else torch_div (torch_mul loss (int (length input)))
                         (torch_sum labels_length)))"
    using dims enc
    by (simp add: RNNLM_forward_def RNNLM_forward_body_def m Let_def
          split: sum.splits prod.splits)
  have fw': "RNNLM_forward LabelSmoothingLoss_forward ?lm' input input_length labels
               labels_length
      = (case LabelSmoothingLoss_forward ?c logit' labels of
           Inl e \<Rightarrow> Inl e
         | Inr (loss, each) \<Rightarrow>
             Inr (loss, map torch_exp each,
                  if nl then torch_exp loss
                  else torch_div (torch_mul loss (int (length input)))
                         (torch_sum labels_length)))"
    using dims enc'
    by (simp add: RNNLM_forward_def RNNLM_forward_body_def m c' Let_def
          split: sum.splits prod.splits)
  have same: "RNNLM_forward LabelSmoothingLoss_forward ?lm' input input_length labels
                 labels_length
            = RNNLM_forward LabelSmoothingLoss_forward ?lm input input_length labels
                 labels_length"
    by (simp only: fw fw' crit')
  have ex: "\<exists>total.
            RNNLM_forward LabelSmoothingLoss_forward ?lm input input_length labels labels_length
              = (if list_all (list_all (\<lambda>y. y = - 1 \<or> (0 \<le> y \<and> y < int V))) labels
                 then Inr (Fin (if nl then (if N = 0 then 0 else sum_list per / real N)
                                else sum_list per),
                           map (\<lambda>x. Fin (exp x)) per, total)
                 else Inl DataRangeError)"
    by (simp add: fw crit o_def)
  show ?thesis using ig ex same by (intro conjI)
qed

theorem only_minus_one_is_excluded_witness:
  "ignore_id (criterion (RNNLM_init 2 (const_encoder two_logits) 0 True)) = - 1
   \<and> RNNLM_forward LabelSmoothingLoss_forward (RNNLM_init 2 (const_encoder two_logits) 0 True)
         [[0], [0]] [1, 1] [[0], [- 1]] [1, 1]
       = Inr (Fin 1, [Fin (exp 1), Fin 1], Fin (exp 1))
   \<and> RNNLM_forward LabelSmoothingLoss_forward (RNNLM_init 2 (const_encoder other_logits) 0 True)
         [[0], [0]] [1, 1] [[0], [- 1]] [1, 1]
       = RNNLM_forward LabelSmoothingLoss_forward (RNNLM_init 2 (const_encoder two_logits) 0 True)
         [[0], [0]] [1, 1] [[0], [- 1]] [1, 1]
   \<and> RNNLM_forward LabelSmoothingLoss_forward (RNNLM_init 2 (const_encoder two_logits) 0 True)
         [[0], [0]] [1, 1] [[0], [- 2]] [1, 1]
       = Inl DataRangeError"
proof -
  let ?lm = "RNNLM_init 2 (const_encoder two_logits) 0 True"
  let ?per = "\<lambda>labels. map (\<lambda>(lps, ys).
                if True
                then (if filter (\<lambda>(lp, y). y \<noteq> - 1) (zip lps ys) = [] then 0
                      else sum_list (map (\<lambda>(lp, y). position_loss (criterion ?lm) lp y)
                             (filter (\<lambda>(lp, y). y \<noteq> - 1) (zip lps ys)))
                           / real (length (filter (\<lambda>(lp, y). y \<noteq> - 1) (zip lps ys))))
                else sum_list (map (\<lambda>(lp, y). position_loss (criterion ?lm) lp y)
                       (filter (\<lambda>(lp, y). y \<noteq> - 1) (zip lps ys))))
              (zip two_logits labels)"
  let ?N = "\<lambda>labels :: int list list.
              sum_list (map (\<lambda>ys. length (filter (\<lambda>y. y \<noteq> - 1) ys)) labels)"
  have e: "enc_forward (const_encoder two_logits) [[0], [0]] [1, 1] = Inr two_logits"
    "enc_forward (const_encoder other_logits) [[0], [0]] [1, 1] = Inr other_logits"
    by (simp_all add: const_encoder_def)
  have a: "\<forall>b t. b < length [[0], [- 1 :: int]] \<and> t < length ([[0], [- 1 :: int]] ! b)
              \<and> [[0], [- 1 :: int]] ! b ! t \<noteq> - 1
            \<longrightarrow> other_logits ! b ! t = two_logits ! b ! t"
  proof (intro allI impI)
    fix b t :: nat
    assume h: "b < length [[0], [- 1 :: int]] \<and> t < length ([[0], [- 1 :: int]] ! b)
              \<and> [[0], [- 1 :: int]] ! b ! t \<noteq> - 1"
    then have "b = 0 \<or> b = 1" by auto
    then have "b = 0 \<and> t = 0" using h by auto
    then show "other_logits ! b ! t = two_logits ! b ! t"
      by (simp add: other_logits_def two_logits_def)
  qed
  have a2: "\<forall>b t. b < length [[0], [- 2 :: int]] \<and> t < length ([[0], [- 2 :: int]] ! b)
              \<and> [[0], [- 2 :: int]] ! b ! t \<noteq> - 1
            \<longrightarrow> two_logits ! b ! t = two_logits ! b ! t"
    by simp
  note t1 = only_minus_one_is_excluded
    [of "[[0], [0]]" "[1, 1]" "[[0], [- 1]]" "[1, 1]" "const_encoder two_logits" two_logits
        "const_encoder other_logits" other_logits 2 "?per [[0], [- 1]]" True 0
        "?N [[0], [- 1]]", OF _ _ _ e(1) e(2) _ _ _ _ a refl refl]
  note t2 = only_minus_one_is_excluded
    [of "[[0], [0]]" "[1, 1]" "[[0], [- 2]]" "[1, 1]" "const_encoder two_logits" two_logits
        "const_encoder two_logits" two_logits 2 "?per [[0], [- 2]]" True 0
        "?N [[0], [- 2]]", OF _ _ _ e(1) e(1) _ _ _ _ a2 refl refl]
  have r1: "ignore_id (criterion ?lm) = - 1
     \<and> RNNLM_forward LabelSmoothingLoss_forward
           (RNNLM_init 2 (const_encoder other_logits) 0 True)
           [[0], [0]] [1, 1] [[0], [- 1]] [1, 1]
         = RNNLM_forward LabelSmoothingLoss_forward ?lm [[0], [0]] [1, 1] [[0], [- 1]] [1, 1]"
    using t1 by (simp add: two_logits_def other_logits_def)
  have r2: "RNNLM_forward LabelSmoothingLoss_forward ?lm [[0], [0]] [1, 1] [[0], [- 2]] [1, 1]
              = Inl DataRangeError"
    using t2 by (simp add: two_logits_def)
  have r3: "RNNLM_forward LabelSmoothingLoss_forward ?lm [[0], [0]] [1, 1] [[0], [- 1]] [1, 1]
       = Inr (Fin 1, [Fin (exp 1), Fin 1], Fin (exp 1))"
    by (simp add: RNNLM_forward_def RNNLM_forward_body_def RNNLM_init_def const_encoder_def
        two_logits_def LabelSmoothingLoss_forward_def LabelSmoothingLoss_init_def
        seq_shape_ok_def label_ok_def seq_loss_def counted_def position_loss_def
        smoothed_target_def upt_conv_Cons)
  show ?thesis using r1 r2 r3 by (intro conjI) simp_all
qed

subsection \<open>A sequence whose labels are all ignored\<close>

lemma remove_nth_length: "b < length xs \<Longrightarrow> length (remove_nth b xs) = length xs - 1"
  by (simp add: remove_nth_def)

lemma remove_nth_map: "map f (remove_nth b xs) = remove_nth b (map f xs)"
  by (simp add: remove_nth_def take_map drop_map)

lemma remove_nth_zip:
  "length xs = length ys \<Longrightarrow> zip (remove_nth b xs) (remove_nth b ys) = remove_nth b (zip xs ys)"
  by (simp add: remove_nth_def take_zip drop_zip)

lemma remove_nth_list_all: "list_all P xs \<Longrightarrow> list_all P (remove_nth b xs)"
  by (auto simp: remove_nth_def list_all_iff dest: in_set_takeD in_set_dropD)

lemma remove_nth_sum_real:
  fixes xs :: "real list"
  assumes "b < length xs" "xs ! b = 0"
  shows "sum_list (remove_nth b xs) = sum_list xs"
proof -
  have "xs = take b xs @ xs ! b # drop (Suc b) xs"
    using assms(1) by (rule id_take_nth_drop)
  then have "sum_list xs = sum_list (take b xs) + xs ! b + sum_list (drop (Suc b) xs)"
    by (metis add.assoc sum_list.Cons sum_list.append)
  then show ?thesis using assms(2) by (simp add: remove_nth_def)
qed

lemma remove_nth_sum_nat:
  fixes xs :: "nat list"
  assumes "b < length xs" "xs ! b = 0"
  shows "sum_list (remove_nth b xs) = sum_list xs"
proof -
  have "xs = take b xs @ xs ! b # drop (Suc b) xs"
    using assms(1) by (rule id_take_nth_drop)
  then have "sum_list xs = sum_list (take b xs) + xs ! b + sum_list (drop (Suc b) xs)"
    by (metis add.assoc sum_list.Cons sum_list.append)
  then show ?thesis using assms(2) by (simp add: remove_nth_def)
qed

lemma counted_all_ignored:
  "list_all (\<lambda>y. y = ignore_id crit) ys \<Longrightarrow> counted crit lps ys = []"
  by (auto simp: counted_def list_all_iff filter_empty_conv dest: set_zip_rightD)

lemma seq_loss_all_ignored:
  "list_all (\<lambda>y. y = ignore_id crit) ys \<Longrightarrow> seq_loss crit lps ys = 0"
  by (simp add: seq_loss_def counted_all_ignored)

lemma LabelSmoothingLoss_forward_ok:
  assumes "length log_probs = length targets"
    "list_all (\<lambda>(lps, ys). seq_shape_ok crit lps ys) (zip log_probs targets)"
    "list_all (list_all (label_ok crit)) targets"
  shows "LabelSmoothingLoss_forward crit log_probs targets =
     Inr (Fin (if ls_length_normalized crit
               then (if sum_list (map (\<lambda>(lps, ys). length (counted crit lps ys))
                          (zip log_probs targets)) = 0 then 0
                     else sum_list (map (\<lambda>(lps, ys). seq_loss crit lps ys) (zip log_probs targets))
                          / real (sum_list (map (\<lambda>(lps, ys). length (counted crit lps ys))
                          (zip log_probs targets))))
               else sum_list (map (\<lambda>(lps, ys). seq_loss crit lps ys) (zip log_probs targets))),
          map Fin (map (\<lambda>(lps, ys). seq_loss crit lps ys) (zip log_probs targets)))"
  using assms by (simp add: LabelSmoothingLoss_forward_def Let_def)

text \<open>
  Claim C6: in a training forward call on well-shaped inputs, a sequence \<open>b\<close> whose labels
  are all \<open>-1\<close> has the per-sequence loss 0 and the per-sequence perplexity 1 (finite, not
  NaN), and contributes nothing to the scalar loss: the criterion returns the same scalar
  loss on the batch without that sequence. For a batch of one such sequence the scalar
  loss is 0 and the per-sequence loss is 0.
\<close>

theorem all_ignored_sequence_contributes_zero:
  assumes lm: "lm = RNNLM_init V enc w nl"
    and dims: "length input = length input_length" "length input_length = length labels"
      "length labels = length labels_length"
    and enc: "enc_forward enc input input_length = Inr logit"
    and shape: "length logit = length labels"
      "list_all (\<lambda>(lps, ys). seq_shape_ok (criterion lm) lps ys) (zip logit labels)"
    and range: "list_all (list_all (label_ok (criterion lm))) labels"
    and b: "b < length labels"
    and ign: "list_all (\<lambda>y. y = - 1) (labels ! b)"
  shows "\<exists>loss each ppl total.
           RNNLM_forward LabelSmoothingLoss_forward lm input input_length labels labels_length
             = Inr (loss, ppl, total)
         \<and> LabelSmoothingLoss_forward (criterion lm) logit labels = Inr (loss, each)
         \<and> each ! b = Fin 0
         \<and> ppl ! b = Fin 1
         \<and> is_finite (ppl ! b)
         \<and> LabelSmoothingLoss_forward (criterion lm) (remove_nth b logit) (remove_nth b labels)
             = Inr (loss, remove_nth b each)
         \<and> (if length labels = 1 then loss = Fin 0 \<and> each = [Fin 0] \<and> ppl = [Fin 1]
            else True)"
proof -
  let ?c = "criterion lm"
  let ?z = "zip logit labels"
  let ?per = "map (\<lambda>(lps, ys). seq_loss ?c lps ys) ?z"
  let ?cnt = "map (\<lambda>(lps, ys). length (counted ?c lps ys)) ?z"
  have ig: "ignore_id ?c = - 1"
    by (simp add: lm RNNLM_init_def LabelSmoothingLoss_init_def)
  have bz: "b < length ?z" using b shape(1) by simp
  have ign': "list_all (\<lambda>y. y = ignore_id ?c) (labels ! b)" using ign ig by simp
  have zb: "?z ! b = (logit ! b, labels ! b)" using bz by simp
  have perb: "?per ! b = 0"
    using bz zb seq_loss_all_ignored [OF ign'] by simp
  have cntb: "?cnt ! b = 0"
    using bz zb counted_all_ignored [OF ign'] by simp
  obtain loss where full: "LabelSmoothingLoss_forward ?c logit labels = Inr (loss, map Fin ?per)"
    using LabelSmoothingLoss_forward_ok [OF shape(1) shape(2) range] by blast
  have loss: "loss = Fin (if ls_length_normalized ?c
               then (if sum_list ?cnt = 0 then 0 else sum_list ?per / real (sum_list ?cnt))
               else sum_list ?per)"
    using full LabelSmoothingLoss_forward_ok [OF shape(1) shape(2) range] by simp
  let ?each = "map Fin ?per"
  let ?ppl = "map torch_exp ?each"
  let ?total = "if length_normalized_loss lm then torch_exp loss
                else torch_div (torch_mul loss (int (length input))) (torch_sum labels_length)"
  have fw: "RNNLM_forward LabelSmoothingLoss_forward lm input input_length labels labels_length
              = Inr (loss, ?ppl, ?total)"
    using dims enc full
    by (simp add: RNNLM_forward_def RNNLM_forward_body_def Let_def lm RNNLM_init_def)
  have eachb: "?each ! b = Fin 0" using bz perb by simp
  have pplb: "?ppl ! b = Fin 1" using bz perb by simp
  have len': "length (remove_nth b logit) = length (remove_nth b labels)"
    using shape(1) by (simp add: remove_nth_def)
  have z': "zip (remove_nth b logit) (remove_nth b labels) = remove_nth b ?z"
    using shape(1) by (rule remove_nth_zip)
  have shape': "list_all (\<lambda>(lps, ys). seq_shape_ok ?c lps ys)
                  (zip (remove_nth b logit) (remove_nth b labels))"
    unfolding z' using shape(2) by (rule remove_nth_list_all)
  have range': "list_all (list_all (label_ok ?c)) (remove_nth b labels)"
    using range by (rule remove_nth_list_all)
  have sper: "sum_list (remove_nth b ?per) = sum_list ?per"
    using bz perb by (intro remove_nth_sum_real) simp_all
  have scnt: "sum_list (remove_nth b ?cnt) = sum_list ?cnt"
    using bz cntb by (intro remove_nth_sum_nat) simp_all
  have rest: "LabelSmoothingLoss_forward ?c (remove_nth b logit) (remove_nth b labels)
                = Inr (loss, remove_nth b ?each)"
    unfolding LabelSmoothingLoss_forward_ok [OF len' shape' range'] z' loss
    by (simp add: remove_nth_map sper scnt)
  have single: "length labels = 1 \<Longrightarrow> loss = Fin 0 \<and> ?each = [Fin 0] \<and> ?ppl = [Fin 1]"
  proof -
    assume l1: "length labels = 1"
    then have b0: "b = 0" using b by simp
    obtain p where zp: "?z = [p]"
      using l1 shape(1) by (cases ?z; cases "tl ?z") (auto simp: length_Suc_conv)
    have p0: "(case p of (lps, ys) \<Rightarrow> seq_loss ?c lps ys) = 0"
      using perb b0 zp by simp
    have c0: "(case p of (lps, ys) \<Rightarrow> length (counted ?c lps ys)) = 0"
      using cntb b0 zp by simp
    show ?thesis
      using p0 c0 by (simp add: loss zp)
  qed
  show ?thesis
    using fw full eachb pplb rest single
    by (intro exI [of _ loss] exI [of _ ?each] exI [of _ ?ppl] exI [of _ ?total]) simp
qed

theorem all_ignored_sequence_contributes_zero_witness:
  "\<exists>loss each ppl total.
     RNNLM_forward LabelSmoothingLoss_forward (RNNLM_init 2 (const_encoder [[[0, 0]]]) 0 True)
         [[0]] [1] [[- 1]] [1] = Inr (loss, ppl, total)
   \<and> LabelSmoothingLoss_forward (criterion (RNNLM_init 2 (const_encoder [[[0, 0]]]) 0 True))
         [[[0, 0]]] [[- 1]] = Inr (loss, each)
   \<and> each ! 0 = Fin 0
   \<and> ppl ! 0 = Fin 1
   \<and> is_finite (ppl ! 0)
   \<and> LabelSmoothingLoss_forward (criterion (RNNLM_init 2 (const_encoder [[[0, 0]]]) 0 True))
         (remove_nth 0 [[[0, 0]]]) (remove_nth 0 [[- 1]]) = Inr (loss, remove_nth 0 each)
   \<and> loss = Fin 0 \<and> each = [Fin 0] \<and> ppl = [Fin 1]"
  using all_ignored_sequence_contributes_zero
    [of "RNNLM_init 2 (const_encoder [[[0, 0]]]) 0 True" 2 "const_encoder [[[0, 0]]]" 0 True
        "[[0]]" "[1]" "[[- 1]]" "[1]" "[[[0, 0]]]" 0]
  by (simp add: RNNLM_init_def const_encoder_def LabelSmoothingLoss_init_def
        seq_shape_ok_def label_ok_def)

section \<open>Properties of the stacked recurrent layer\<close>

subsection \<open>Stepping and the full-sequence call\<close>

text \<open>The two state tensors and the per-layer pairs of the loop carry the same
  information when the tensors have the same shape.\<close>

lemma unpack_pack_state:
  "state_pair_ok state_m state_c \<Longrightarrow> unpack_state (pack_state state_m state_c) = (state_m, state_c)"
proof -
  have a: "\<And>ms cs :: vec list. length ms = length cs \<Longrightarrow> map fst (zip ms cs) = ms \<and> map snd (zip ms cs) = cs"
    by simp
  have "length state_m = length state_c \<Longrightarrow>
        list_all (\<lambda>(ms, cs). length ms = length cs) (zip state_m state_c) \<Longrightarrow>
        map (map fst) (map (\<lambda>(ms, cs). zip ms cs) (zip state_m state_c)) = state_m
        \<and> map (map snd) (map (\<lambda>(ms, cs). zip ms cs) (zip state_m state_c)) = state_c"
    by (induction state_m state_c rule: list_induct2) (simp_all add: a)
  then show "state_pair_ok state_m state_c \<Longrightarrow> ?thesis"
    by (simp add: state_pair_ok_def unpack_state_def pack_state_def)
qed

lemma pack_unpack_state:
  "pack_state (fst (unpack_state st)) (snd (unpack_state st)) = st"
proof -
  have a: "\<And>ss :: (vec \<times> vec) list. zip (map fst ss) (map snd ss) = ss"
    by (simp add: zip_map_fst_snd)
  show ?thesis
    by (induction st) (simp_all add: pack_state_def unpack_state_def a)
qed

lemma state_pair_ok_unpack:
  "state_pair_ok (fst (unpack_state st)) (snd (unpack_state st))"
  by (induction st) (simp_all add: state_pair_ok_def unpack_state_def)

text \<open>One call of \<open>step\<close> is one timestep of the loop, and stepping through a sequence is
  the loop itself: with the state threaded by the caller, \<open>T\<close> calls of \<open>step\<close> give the
  outputs and the final state of one call over the \<open>T\<close> timesteps and the same mask, for
  any cell, and fail where it fails.\<close>

lemma step_unpacked:
  "step R xs pads (unpack_state st) =
     (case rnn_step R pads xs st of
        Inl e \<Rightarrow> Inl e
      | Inr (ys, st') \<Rightarrow> Inr ([ys], unpack_state st'))"
proof -
  obtain m c where mc: "unpack_state st = (m, c)" by (cases "unpack_state st")
  have ok: "state_pair_ok m c" using state_pair_ok_unpack [of st] mc by simp
  have pk: "pack_state m c = st" using pack_unpack_state [of st] mc by simp
  show ?thesis
    by (simp add: step_def StackedRNNLayer_forward_def mc ok pk split: sum.splits prod.splits)
qed

lemma steps_rnn_time:
  "steps R input paddings (unpack_state st) =
     (case rnn_time R input paddings st of
        Inl e \<Rightarrow> Inl e
      | Inr (outs, st') \<Rightarrow> Inr (outs, unpack_state st'))"
proof (induction R input paddings st rule: rnn_time.induct)
  case (1 R st)
  then show ?case by simp
next
  case (2 R xs input pads paddings st)
  show ?case
  proof (cases "rnn_step R pads xs st")
    case (Inl e)
    then show ?thesis by (simp add: step_unpacked)
  next
    case (Inr r)
    obtain ys st' where r: "r = (ys, st')" by (cases r)
    show ?thesis
      using 2 [OF Inr r [symmetric]] Inr r
      by (simp add: step_unpacked split: sum.splits prod.splits)
  qed
next
  case (3 R pads paddings st)
  then show ?case by simp
next
  case (4 R xs input st)
  then show ?case by simp
qed

lemma steps_equiv_with_state:
  assumes "input \<noteq> []"
  shows "steps R input paddings (state_m, state_c)
           = StackedRNNLayer_forward R input paddings (Some (state_m, state_c))"
proof (cases "state_pair_ok state_m state_c")
  case True
  have "steps R input paddings (unpack_state (pack_state state_m state_c))
          = StackedRNNLayer_forward R input paddings (Some (state_m, state_c))"
    unfolding steps_rnn_time by (simp add: StackedRNNLayer_forward_def True)
  then show ?thesis using unpack_pack_state [OF True] by simp
next
  case False
  obtain xs rest where i: "input = xs # rest" using assms by (cases input) auto
  show ?thesis
    by (cases paddings) (simp_all add: i step_def StackedRNNLayer_forward_def False)
qed

lemma steps_equiv_from_zero:
  "steps R input paddings (unpack_state (zero_state R (dim1 input)))
     = encode_sequence R input paddings"
  unfolding steps_rnn_time by (simp add: encode_sequence_def StackedRNNLayer_forward_def)


subsection \<open>The state at padded positions\<close>

text \<open>A timestep leaves the state of a batch element whose mask is true as it was, in
  every layer; so does any run of timesteps on which its mask stays true.\<close>

lemma layer_step_hold:
  assumes "layer_step R l pads xs ss = (ys, ss')"
    "length pads = length xs" "length ss = length xs"
  shows "length ss' = length ss" "length ys = length xs"
    "b < length ss \<Longrightarrow> pads ! b \<Longrightarrow> ss' ! b = ss ! b"
  using assms
  by (auto simp: layer_step_def Let_def cell_step_def select_def split: prod.splits)

lemma layers_step_hold:
  assumes "layers_step R l pads xs st = (zs, st')"
    "length pads = length xs" "list_all (\<lambda>ss. length ss = length xs) st"
  shows "length st' = length st
       \<and> (\<forall>k<length st. length (st' ! k) = length (st ! k)
            \<and> (\<forall>b<length xs. pads ! b \<longrightarrow> st' ! k ! b = st ! k ! b))"
  using assms
proof (induction st arbitrary: l xs zs st')
  case Nil
  then show ?case by simp
next
  case (Cons ss rest)
  obtain ys ss' where ls: "layer_step R l pads xs ss = (ys, ss')"
    by (cases "layer_step R l pads xs ss")
  let ?xs' = "if rest = [] then ys else map (dropout R) ys"
  obtain zs' rest' where rs: "layers_step R (Suc l) pads ?xs' rest = (zs', rest')"
    by (cases "layers_step R (Suc l) pads ?xs' rest")
  have st': "st' = ss' # rest'"
    using Cons.prems(1) ls rs by simp
  have lss: "length ss = length xs" using Cons.prems(3) by simp
  note h = layer_step_hold [OF ls Cons.prems(2) lss]
  have lx: "length ?xs' = length xs" using h(2) by simp
  have all': "list_all (\<lambda>ss. length ss = length ?xs') rest"
    using Cons.prems(3) lx by simp
  have p': "length pads = length ?xs'" using Cons.prems(2) lx by simp
  note ih = Cons.IH [OF rs p' all']
  show ?case
  proof (intro conjI allI impI)
    show "length st' = length (ss # rest)" using ih st' by simp
  next
    fix k assume k: "k < length (ss # rest)"
    show "length (st' ! k) = length ((ss # rest) ! k)"
      using k ih h(1) st' by (cases k) auto
  next
    fix k b assume k: "k < length (ss # rest)" and b: "b < length xs" and p: "pads ! b"
    show "st' ! k ! b = (ss # rest) ! k ! b"
    proof (cases k)
      case 0
      then show ?thesis using h(3) [of b] b p lss st' by simp
    next
      case (Suc k')
      then show ?thesis using ih k b p lx st' by simp
    qed
  qed
qed

lemma rnn_step_hold:
  assumes "rnn_step R pads xs st = Inr (ys, st')"
  shows "length st' = length st
       \<and> (\<forall>k<length st. length (st' ! k) = length (st ! k)
            \<and> (\<forall>b<length (st ! k). pads ! b \<longrightarrow> st' ! k ! b = st ! k ! b))"
proof -
  have ok: "step_shapes_ok R pads xs st" and ls: "layers_step R 0 pads xs st = (ys, st')"
    using assms by (auto simp: rnn_step_def split: if_splits)
  have lp: "length pads = length xs" using ok by (simp add: step_shapes_ok_def)
  have all: "list_all (\<lambda>ss. length ss = length xs) st"
    using ok by (auto simp: step_shapes_ok_def list_all_iff)
  have len: "\<And>k. k < length st \<Longrightarrow> length (st ! k) = length xs"
    using all by (simp add: list_all_length)
  show ?thesis
    using layers_step_hold [OF ls lp all] len by simp
qed

lemma rnn_time_hold:
  assumes "rnn_time R input paddings st = Inr (outs, st')"
    "\<forall>t<length paddings. paddings ! t ! b"
    "k < length st" "b < length (st ! k)"
  shows "length st' = length st \<and> length (st' ! k) = length (st ! k)
       \<and> st' ! k ! b = st ! k ! b"
  using assms
proof (induction R input paddings st arbitrary: outs st' rule: rnn_time.induct)
  case (1 R st)
  then show ?case by simp
next
  case (2 R xs input pads paddings st)
  obtain ys st1 where s1: "rnn_step R pads xs st = Inr (ys, st1)"
    using "2.prems"(1) by (auto split: sum.splits)
  obtain outs1 where r1: "rnn_time R input paddings st1 = Inr (outs1, st')"
    using "2.prems"(1) s1 by (auto split: sum.splits)
  note h = rnn_step_hold [OF s1]
  have p0: "pads ! b" using "2.prems"(2) by auto
  have prest: "\<forall>t<length paddings. paddings ! t ! b" using "2.prems"(2) by auto
  have k1: "k < length st1" using h "2.prems"(3) by simp
  have b1: "b < length (st1 ! k)" using h "2.prems"(3,4) by simp
  have ih: "length st' = length st1 \<and> length (st' ! k) = length (st1 ! k)
            \<and> st' ! k ! b = st1 ! k ! b"
    using "2.IH" [OF s1 refl r1 prest k1 b1] .
  show ?case using ih h "2.prems"(3,4) p0 by simp
next
  case (3 R pads paddings st)
  then show ?case by simp
next
  case (4 R xs input st)
  then show ?case by simp
qed

text \<open>A run over a sequence is the run over a prefix followed by the run over the
  rest, started in the state the prefix ends in.\<close>

lemma rnn_time_append:
  assumes "length xs = length ps"
  shows "rnn_time R (xs @ xs') (ps @ ps') st =
     (case rnn_time R xs ps st of
        Inl e \<Rightarrow> Inl e
      | Inr (o1, st1) \<Rightarrow>
          (case rnn_time R xs' ps' st1 of
             Inl e \<Rightarrow> Inl e
           | Inr (o2, st2) \<Rightarrow> Inr (o1 @ o2, st2)))"
  using assms
proof (induction xs ps arbitrary: st rule: list_induct2)
  case Nil
  then show ?case by (simp split: sum.splits prod.splits)
next
  case (Cons x xs p ps)
  show ?case
    by (simp add: Cons.IH split: sum.splits prod.splits)
qed

lemma dim1_take: "0 < n \<Longrightarrow> dim1 (take n xs) = dim1 xs"
  by (cases xs; cases n) (simp_all add: dim1_def)

lemma initial_state_take:
  "0 < n \<Longrightarrow>
   (case state of
      None \<Rightarrow> Inr (zero_state R (dim1 (take n input)))
    | Some (state_m, state_c) \<Rightarrow>
        (if state_pair_ok state_m state_c then Inr (pack_state state_m state_c)
         else Inl ShapeMismatch))
   = (case state of
      None \<Rightarrow> Inr (zero_state R (dim1 input))
    | Some (state_m, state_c) \<Rightarrow>
        (if state_pair_ok state_m state_c then Inr (pack_state state_m state_c)
         else Inl ShapeMismatch))"
  by (simp add: dim1_take split: option.splits)

lemma forward_prefix:
  assumes "StackedRNNLayer_forward R (take n input) (take n paddings) state = Inr (outs, (m, c))"
    "0 < n"
  shows "\<exists>st0 st. (case state of
              None \<Rightarrow> Inr (zero_state R (dim1 input))
            | Some (state_m, state_c) \<Rightarrow>
                (if state_pair_ok state_m state_c then Inr (pack_state state_m state_c)
                 else Inl ShapeMismatch)) = Inr st0
         \<and> rnn_time R (take n input) (take n paddings) st0 = Inr (outs, st)
         \<and> m = map (map fst) st \<and> c = map (map snd) st"
  using assms(1) unfolding StackedRNNLayer_forward_def initial_state_take [OF assms(2)]
  by (auto simp: unpack_state_def split: sum.splits prod.splits)


text \<open>
  For every layer \<open>l\<close> and batch element \<open>b\<close>: if the mask is true for \<open>b\<close> at every timestep
  from \<open>k\<close> up to \<open>j - 1\<close>, the hidden state of the layer after timestep \<open>j - 1\<close> is the
  state after timestep \<open>k - 1\<close>, in both state tensors: no transition is applied where the
  mask is true, at any depth.
\<close>

lemma masked_state_held:
  assumes k: "StackedRNNLayer_forward R (take k input) (take k paddings) state
                = Inr (out_k, (m_k, c_k))"
    and j: "StackedRNNLayer_forward R (take j input) (take j paddings) state
                = Inr (out_j, (m_j, c_j))"
    and kj: "0 < k" "k \<le> j" "j \<le> length input" "j \<le> length paddings"
    and masked: "\<forall>t. k \<le> t \<and> t < j \<longrightarrow> paddings ! t ! b"
    and lb: "l < length m_k" "b < length (m_k ! l)"
  shows "m_j ! l ! b = m_k ! l ! b \<and> c_j ! l ! b = c_k ! l ! b"
proof -
  have j0: "0 < j" using kj by simp
  obtain st0 st_k where i0: "(case state of
              None \<Rightarrow> Inr (zero_state R (dim1 input))
            | Some (state_m, state_c) \<Rightarrow>
                (if state_pair_ok state_m state_c then Inr (pack_state state_m state_c)
                 else Inl ShapeMismatch)) = Inr st0"
    and rk: "rnn_time R (take k input) (take k paddings) st0 = Inr (out_k, st_k)"
    and mk: "m_k = map (map fst) st_k" and ck: "c_k = map (map snd) st_k"
    using forward_prefix [OF k kj(1)] by blast
  obtain st0' st_j where i0': "(case state of
              None \<Rightarrow> Inr (zero_state R (dim1 input))
            | Some (state_m, state_c) \<Rightarrow>
                (if state_pair_ok state_m state_c then Inr (pack_state state_m state_c)
                 else Inl ShapeMismatch)) = Inr st0'"
    and rj': "rnn_time R (take j input) (take j paddings) st0' = Inr (out_j, st_j)"
    and mj: "m_j = map (map fst) st_j" and cj: "c_j = map (map snd) st_j"
    using forward_prefix [OF j j0] by blast
  have "st0' = st0" using i0 i0' by simp
  then have rj: "rnn_time R (take j input) (take j paddings) st0 = Inr (out_j, st_j)"
    using rj' by simp
  let ?sx = "drop k (take j input)" and ?sp = "drop k (take j paddings)"
  have tx: "take j input = take k input @ ?sx"
    using kj(2) by (metis append_take_drop_id min.absorb1 take_take)
  have tp: "take j paddings = take k paddings @ ?sp"
    using kj(2) by (metis append_take_drop_id min.absorb1 take_take)
  have lk: "length (take k input) = length (take k paddings)"
    using kj by simp
  have "rnn_time R (take k input @ ?sx) (take k paddings @ ?sp) st0 = Inr (out_j, st_j)"
    using rj tx tp by simp
  then obtain o2 where seg: "rnn_time R ?sx ?sp st_k = Inr (o2, st_j)"
    unfolding rnn_time_append [OF lk] using rk by (auto split: sum.splits)
  have msk: "\<forall>t<length ?sp. ?sp ! t ! b"
    using masked kj by auto
  have l': "l < length st_k" using lb(1) mk by simp
  have b': "b < length (st_k ! l)" using lb mk by simp
  note h = rnn_time_hold [OF seg msk l' b']
  have l'': "l < length st_j" using h l' by simp
  have b'': "b < length (st_j ! l)" using h b' by simp
  show ?thesis
    using h l' b' l'' b'' by (simp add: mk ck mj cj)
qed


lemma masked_state_held_example:
  "padding [1, 3] = Inr [[False, False], [False, False], [True, False]]
   \<and> StackedRNNLayer_forward (stacked_rnn (example_encoder 2 False))
         (take 2 [[[1], [1]], [[1], [1]], [[1], [1]]])
         (take 2 [[False, False], [False, False], [True, False]]) None
       = Inr ([[[1], [1]], [[2], [2]]], ([[[2], [2]]], [[[0], [0]]]))
   \<and> StackedRNNLayer_forward (stacked_rnn (example_encoder 2 False))
         (take 3 [[[1], [1]], [[1], [1]], [[1], [1]]])
         (take 3 [[False, False], [False, False], [True, False]]) None
       = Inr ([[[1], [1]], [[2], [2]], [[3], [3]]], ([[[2], [3]]], [[[0], [0]]]))
   \<and> [[[2], [3 :: real]]] ! 0 ! 0 = [[[2], [2 :: real]]] ! 0 ! 0
   \<and> [[[0], [0 :: real]]] ! 0 ! 0 = [[[0], [0 :: real]]] ! 0 ! 0"
proof -
  have p: "padding [1, 3] = Inr [[False, False], [False, False], [True, False]]"
    by code_simp
  have k: "StackedRNNLayer_forward (stacked_rnn (example_encoder 2 False))
         (take 2 [[[1], [1]], [[1], [1]], [[1], [1]]])
         (take 2 [[False, False], [False, False], [True, False]]) None
       = Inr ([[[1], [1]], [[2], [2]]], ([[[2], [2]]], [[[0], [0]]]))"
    by (simp add: StackedRNNLayer_forward_def example_encoder_def RNNEncoder_init_def
          example_weights_def zero_state_def dim1_def rnn_step_def step_shapes_ok_def
          layer_step_def cell_step_def select_def acc_cell_def transition_def supported_cell_def unpack_state_def)
  have j: "StackedRNNLayer_forward (stacked_rnn (example_encoder 2 False))
         (take 3 [[[1], [1]], [[1], [1]], [[1], [1]]])
         (take 3 [[False, False], [False, False], [True, False]]) None
       = Inr ([[[1], [1]], [[2], [2]], [[3], [3]]], ([[[2], [3]]], [[[0], [0]]]))"
    by (simp add: StackedRNNLayer_forward_def example_encoder_def RNNEncoder_init_def
          example_weights_def zero_state_def dim1_def rnn_step_def step_shapes_ok_def
          layer_step_def cell_step_def select_def acc_cell_def transition_def supported_cell_def unpack_state_def)
  have m: "\<forall>t. 2 \<le> t \<and> t < 3
             \<longrightarrow> [[False, False], [False, False], [True, False]] ! t ! 0"
  proof (intro allI impI)
    fix t :: nat assume "2 \<le> t \<and> t < 3"
    then have "t = 2" by simp
    then show "[[False, False], [False, False], [True, False]] ! t ! 0" by simp
  qed
  have "[[[2], [3 :: real]]] ! 0 ! 0 = [[[2], [2 :: real]]] ! 0 ! 0
      \<and> [[[0], [0 :: real]]] ! 0 ! 0 = [[[0], [0 :: real]]] ! 0 ! 0"
    by (rule masked_state_held [OF k j _ _ _ _ m]) simp_all
  then show ?thesis using p k j by simp
qed

text \<open>
  Claim C5: at a padded position the hidden state of every layer equals its state at the
  last valid position; padded positions never apply a recurrent transition.

  The stacked layer holds the state wherever the mask is true (\<open>masked_state_held\<close>), but
  the mask that \<^verbatim>\<open>forward\<close> builds (lines 56 to 60) is false at the first padded position
  \<open>t = l\<close>. For the lengths \<open>[1, 3]\<close> the first sequence has one valid position: its state is
  \<open>[1]\<close> after it, the padded position 1 is not marked and applies a transition, and the
  state is \<open>[2]\<close> at the marked position 2.
\<close>

theorem padded_position_applies_transition:
  "padding [1, 3] = Inr [[False, False], [False, False], [True, False]]
   \<and> Embedding_call (lookup_table (example_encoder 2 False)) [[0, 1, 0], [1, 0, 1]]
       = Inr [[[1], [1], [1]], [[1], [1], [1]]]
   \<and> transpose01 3 [[[1], [1], [1]], [[1], [1], [1 :: real]]]
       = [[[1], [1]], [[1], [1]], [[1], [1]]]
   \<and> StackedRNNLayer_forward (stacked_rnn (example_encoder 2 False))
         (take 1 [[[1], [1]], [[1], [1]], [[1], [1]]])
         (take 1 [[False, False], [False, False], [True, False]]) None
       = Inr ([[[1], [1]]], ([[[1], [1]]], [[[0], [0]]]))
   \<and> StackedRNNLayer_forward (stacked_rnn (example_encoder 2 False))
         (take 2 [[[1], [1]], [[1], [1]], [[1], [1]]])
         (take 2 [[False, False], [False, False], [True, False]]) None
       = Inr ([[[1], [1]], [[2], [2]]], ([[[2], [2]]], [[[0], [0]]]))
   \<and> StackedRNNLayer_forward (stacked_rnn (example_encoder 2 False))
         [[[1], [1]], [[1], [1]], [[1], [1]]]
         [[False, False], [False, False], [True, False]] None
       = Inr ([[[1], [1]], [[2], [2]], [[3], [3]]], ([[[2], [3]]], [[[0], [0]]]))"
proof -
  have p: "padding [1, 3] = Inr [[False, False], [False, False], [True, False]]"
    by code_simp
  have e: "Embedding_call (lookup_table (example_encoder 2 False)) [[0, 1, 0], [1, 0, 1]]
       = Inr [[[1], [1], [1]], [[1], [1], [1]]]"
    by (simp add: example_encoder_def example_weights_def RNNEncoder_init_def
          Embedding_call_def embedding_row_def eval_nat_numeral)
  have t: "transpose01 3 [[[1], [1], [1]], [[1], [1], [1 :: real]]]
       = [[[1], [1]], [[1], [1]], [[1], [1]]]"
    by (simp add: transpose01_def upt_conv_Cons)
  show ?thesis
    unfolding p e t
    by (simp add: StackedRNNLayer_forward_def example_encoder_def RNNEncoder_init_def
          example_weights_def zero_state_def dim1_def rnn_step_def step_shapes_ok_def
          layer_step_def cell_step_def select_def acc_cell_def transition_def
          supported_cell_def unpack_state_def)
qed

section \<open>Properties of the output layer\<close>

text \<open>A log-softmax over a non-empty vector is a distribution: its exponentials sum
  to 1. The same holds for the dense output of the adaptive module, when the head has one
  logit per head class and per cluster and no cluster is empty.\<close>

lemma sum_list_exp_pos:
  fixes xs :: "real list"
  shows "xs \<noteq> [] \<Longrightarrow> 0 < sum_list (map exp xs)"
proof (induction xs)
  case Nil
  then show ?case by simp
next
  case (Cons x xs)
  have a: "0 < exp x" by simp
  have b: "0 \<le> sum_list (map exp xs)" by (rule sum_list_nonneg) auto
  show ?case using add_pos_nonneg [OF a b] by simp
qed

lemma log_softmax_vec_sums_to_one:
  assumes "xs \<noteq> []"
  shows "sum_list (map exp (log_softmax_vec xs)) = 1"
proof -
  let ?S = "sum_list (map exp xs)"
  have S: "0 < ?S" using assms by (rule sum_list_exp_pos)
  have "map exp (log_softmax_vec xs) = map (\<lambda>x. exp x * (1 / ?S)) xs"
    using S by (simp add: log_softmax_vec_def exp_diff exp_ln divide_inverse)
  then have "sum_list (map exp (log_softmax_vec xs)) = (\<Sum>x\<leftarrow>xs. exp x * (1 / ?S))"
    by simp
  also have "\<dots> = ?S * (1 / ?S)"
    by (simp only: sum_list_mult_const)
  also have "\<dots> = 1" using S by simp
  finally show ?thesis .
qed

lemma log_softmax_vec_length: "length (log_softmax_vec xs) = length xs"
  by (simp add: log_softmax_vec_def)

lemma sum_list_concat_map:
  fixes f :: "nat \<Rightarrow> real list"
  shows "sum_list (concat (map f is)) = (\<Sum>i\<leftarrow>is. sum_list (f i))"
  by (induction "is") simp_all

lemma sum_list_split_at:
  fixes ys :: "real list"
  assumes "length ys = a + k"
  shows "sum_list (take a ys) + (\<Sum>i\<leftarrow>[0..<k]. ys ! (a + i)) = sum_list ys"
proof -
  have d: "drop a ys = map (\<lambda>i. ys ! (a + i)) [0..<k]"
    using assms by (intro nth_equalityI) simp_all
  have "sum_list ys = sum_list (take a ys) + sum_list (drop a ys)"
    by (metis append_take_drop_id sum_list.append)
  then show ?thesis by (simp add: d)
qed

lemma log_probabilities_sums_to_one:
  assumes len: "length (head_logits A h) = head_size A + n_clusters A"
    and pos: "0 < head_size A + n_clusters A"
    and tails: "list_all (\<lambda>i. tail_logits A i h \<noteq> []) [0..<n_clusters A]"
  shows "sum_list (map exp (log_probabilities A h)) = 1"
proof -
  let ?hd = "log_softmax_vec (head_logits A h)"
  let ?c = "head_size A" and ?k = "n_clusters A"
  let ?e = "map exp ?hd"
  have ne: "head_logits A h \<noteq> []" using len pos by auto
  have le: "length ?e = ?c + ?k" using len by (simp add: log_softmax_vec_length)
  have tail1: "\<And>i. i \<in> set [0..<?k] \<Longrightarrow>
      sum_list (map exp (map (\<lambda>z. ?hd ! (?c + i) + z) (log_softmax_vec (tail_logits A i h))))
        = ?e ! (?c + i)"
  proof -
    fix i assume i: "i \<in> set [0..<?k]"
    then have nz: "tail_logits A i h \<noteq> []" using tails by (auto simp: list_all_iff)
    have ik: "?c + i < length ?hd" using i len by (simp add: log_softmax_vec_length)
    have "sum_list (map exp (map (\<lambda>z. ?hd ! (?c + i) + z)
                 (log_softmax_vec (tail_logits A i h))))
            = (\<Sum>z\<leftarrow>log_softmax_vec (tail_logits A i h). exp z * exp (?hd ! (?c + i)))"
      by (simp add: o_def exp_add mult.commute)
    also have "\<dots> = sum_list (map exp (log_softmax_vec (tail_logits A i h)))
                    * exp (?hd ! (?c + i))"
      by (simp only: sum_list_mult_const)
    also have "\<dots> = exp (?hd ! (?c + i))"
      using log_softmax_vec_sums_to_one [OF nz] by simp
    also have "\<dots> = ?e ! (?c + i)" using ik by simp
    finally show "sum_list (map exp (map (\<lambda>z. ?hd ! (?c + i) + z)
                   (log_softmax_vec (tail_logits A i h)))) = ?e ! (?c + i)" .
  qed
  let ?F = "\<lambda>i. sum_list (map exp (map (\<lambda>z. ?hd ! (?c + i) + z)
                                       (log_softmax_vec (tail_logits A i h))))"
  have m: "map ?F [0..<?k] = map (\<lambda>i. ?e ! (?c + i)) [0..<?k]"
    by (rule map_cong [OF refl]) (rule tail1)
  have "sum_list (map exp (log_probabilities A h))
        = sum_list (take ?c ?e) + sum_list (map ?F [0..<?k])"
    by (simp add: log_probabilities_def Let_def take_map map_concat sum_list_concat_map
          o_def)
  also have "\<dots> = sum_list (take ?c ?e) + (\<Sum>i\<leftarrow>[0..<?k]. ?e ! (?c + i))"
    by (simp only: m)
  also have "\<dots> = sum_list ?e" using le by (rule sum_list_split_at)
  also have "\<dots> = 1" using ne by (rule log_softmax_vec_sums_to_one)
  finally show ?thesis .
qed

section \<open>Properties of \<^verbatim>\<open>RNNEncoder\<close>\<close>

text \<open>In the plain mode the full-sequence forward pass never returns: the call of line 70
  passes \<^verbatim>\<open>dim=2\<close> to \<^verbatim>\<open>nn.LogSoftmax\<close>, which takes no keyword.\<close>

lemma plain_forward_never_returns:
  "log_softmax enc = LogSoftmax d \<Longrightarrow> RNNEncoder_forward enc input seq_len \<noteq> Inr r"
  by (auto simp: RNNEncoder_forward_def LogSoftmax_call_def split: sum.splits prod.splits)

lemma plain_init_forward_never_returns:
  "RNNEncoder_forward (RNNEncoder_init V n i h p ct False W) input seq_len \<noteq> Inr r"
  by (rule plain_forward_never_returns [of _ "int V"]) (simp add: RNNEncoder_init_def)


text \<open>With a vocabulary of 3 or more the single-step call never returns either: the
  module was constructed with \<^verbatim>\<open>dim=vocab_size\<close> (line 44), which is no dimension of a
  tensor \<^verbatim>\<open>[batch, time, vocab]\<close>.\<close>

lemma plain_init_forward_step_never_returns:
  assumes "3 \<le> V"
  shows "RNNEncoder_forward_step (RNNEncoder_init V n i h p ct False W)
           input seq_len state_m state_c \<noteq> Inr r"
  using assms
  by (auto simp: RNNEncoder_forward_step_def RNNEncoder_init_def LogSoftmax_call_def
        F_log_softmax_def split: sum.splits prod.splits)

text \<open>In the adaptive mode every row the forward pass returns is a distribution, and so
  is every non-empty row of a log-softmax along the last dimension.\<close>

lemma traverse_Inr_set:
  "traverse f xs = Inr ys \<Longrightarrow> y \<in> set ys \<Longrightarrow> \<exists>x\<in>set xs. f x = Inr y"
  by (induction xs arbitrary: ys) (auto split: sum.splits)

lemma adaptive_forward_rows_sum_to_one:
  assumes ad: "log_softmax enc = AdaptiveLogSoftmax A"
    and run: "RNNEncoder_forward enc input seq_len = Inr o3"
    and len: "\<And>h. length (head_logits A h) = head_size A + n_clusters A"
    and pos: "0 < head_size A + n_clusters A"
    and tails: "\<And>h. list_all (\<lambda>i. tail_logits A i h \<noteq> []) [0..<n_clusters A]"
    and row: "row \<in> set o3" and lp: "lp \<in> set row"
  shows "sum_list (map exp lp) = 1"
proof -
  obtain x where "o3 = map (map (log_probabilities A)) x"
    using run ad
    by (auto simp: RNNEncoder_forward_def AdaptiveLogSoftmax_call_def
          split: sum.splits prod.splits)
  then obtain h where "lp = log_probabilities A h"
    using row lp by auto
  then show ?thesis
    using log_probabilities_sums_to_one [OF len pos tails] by simp
qed

lemma F_log_softmax_last_dim_sums_to_one:
  assumes "F_log_softmax x 2 = Inr y" "row \<in> set y" "lp \<in> set row" "lp \<noteq> []"
  shows "sum_list (map exp lp) = 1"
proof -
  have "y = map (map log_softmax_vec) x" using assms(1) by (simp add: F_log_softmax_def)
  then obtain v where v: "lp = log_softmax_vec v" using assms(2,3) by auto
  then have "v \<noteq> []" using assms(4) by (auto simp: log_softmax_vec_def)
  then show ?thesis using v log_softmax_vec_sums_to_one by simp
qed

text \<open>
  Claim C3: the full-sequence forward pass returns log-probabilities whose rows sum to 1
  in probability space, in the plain mode and in the adaptive mode.

  In the plain mode it returns nothing: for a vocabulary of 3, the ids \<open>[[0, 1]]\<close> and the
  length \<open>[2]\<close>, the embedding, the mask, the recurrent layers and the projection succeed
  and the call of the log-softmax module raises TypeError.
\<close>

theorem plain_forward_raises:
  "RNNEncoder_forward (example_encoder 3 False) [[0, 1]] [2] = Inl TypeError"
  by (simp add: example_encoder_def example_weights_def RNNEncoder_init_def
        RNNEncoder_forward_def Embedding_call_def embedding_row_def
        StackedRNNLayer_forward_def zero_state_def dim1_def rnn_step_def step_shapes_ok_def
        layer_step_def cell_step_def select_def acc_cell_def transition_def supported_cell_def unpack_state_def
        project_def Linear_call_def linear_vec_def transpose01_def LogSoftmax_call_def
        padding_def torch_arange_def upt_conv_Cons)

text \<open>With the same encoder the single-step call fails too, on the dimension the module
  was constructed with (\<^verbatim>\<open>dim=vocab_size\<close>, line 44).\<close>

lemma plain_forward_step_raises:
  "RNNEncoder_forward_step (example_encoder 3 False) [[0]] [1] [[[0]]] [[[0]]]
     = Inl IndexError"
  by (simp add: example_encoder_def example_weights_def RNNEncoder_init_def
        RNNEncoder_forward_step_def Embedding_call_def embedding_row_def
        StackedRNNLayer_forward_def dim1_def rnn_step_def step_shapes_ok_def
        layer_step_def cell_step_def select_def acc_cell_def transition_def supported_cell_def unpack_state_def pack_state_def
        state_pair_ok_def project_def Linear_call_def linear_vec_def transpose01_def
        LogSoftmax_call_def F_log_softmax_def padding_def torch_arange_def upt_conv_Cons)

subsection \<open>Stepping through a batch in the adaptive mode\<close>

text \<open>
  In the adaptive mode the two methods agree on a rectangular batch of valid ids: when
  the \<^verbatim>\<open>seq_len\<close> passed at step \<open>t\<close> makes \<^verbatim>\<open>forward_step\<close> build row \<open>t\<close> of the mask of
  the full call, the steps fail where the full call fails, and otherwise their outputs,
  joined along time, are the log-probabilities of the full call, and their final state is
  the one the stacked layer reaches inside the full call (which \<^verbatim>\<open>forward\<close> does not
  return). The mask of a step is \<^verbatim>\<open>seq_len < 0\<close> at its only position, so a padded position
  is reproduced by a negative length only.
\<close>

lemma traverse_map:
  "list_all (\<lambda>x. f x = Inr (g x)) xs \<Longrightarrow> traverse f xs = Inr (map g xs)"
  by (induction xs) simp_all

lemma Embedding_call_valid:
  assumes "list_all (list_all (\<lambda>i. 0 \<le> i \<and> i < int (length W))) input"
  shows "Embedding_call W input = Inr (map (map (\<lambda>i. W ! nat i)) input)"
proof -
  have row: "\<And>row. list_all (\<lambda>i. 0 \<le> i \<and> i < int (length W)) row \<Longrightarrow>
      traverse (embedding_row W) row = Inr (map (\<lambda>i. W ! nat i) row)"
    by (rule traverse_map) (simp add: list_all_iff embedding_row_def)
  show ?thesis
    unfolding Embedding_call_def
    by (rule traverse_map) (use assms row in \<open>simp add: list_all_iff\<close>)
qed

lemma column_valid:
  assumes "list_all (list_all (\<lambda>i. 0 \<le> i \<and> i < int (length W))) input"
    "list_all (\<lambda>row. length row = T) input" "t < T"
  shows "list_all (list_all (\<lambda>i. 0 \<le> i \<and> i < int (length W))) (column t input)"
  using assms by (auto simp: column_def list_all_iff)

lemma forward_step_adaptive:
  assumes ad: "log_softmax enc = AdaptiveLogSoftmax A" "adaptive_softmax enc"
    and emb: "Embedding_call (lookup_table enc) i = Inr E" "transpose01 (dim1 E) E = [x]"
    and pad: "padding l = Inr [p]"
  shows "RNNEncoder_forward_step enc i l m c =
     (case step (stacked_rnn enc) x p (m, c) of
        Inl e \<Rightarrow> Inl e
      | Inr (o1, s) \<Rightarrow> Inr (post A o1, s))"
  by (simp add: RNNEncoder_forward_step_def ad emb pad step_def project_def post_def
        AdaptiveLogSoftmax_call_def split: sum.splits prod.splits)

lemma steps_by_rnn_time:
  assumes "length ins = length Xs" "length sls = length Xs" "length Ps = length Xs"
    and one: "\<And>t m c. t < length Xs \<Longrightarrow>
       RNNEncoder_forward_step enc (ins ! t) (sls ! t) m c =
         (case step R (Xs ! t) (Ps ! t) (m, c) of
            Inl e \<Rightarrow> Inl e
          | Inr (o1, s) \<Rightarrow> Inr (post A o1, s))"
  shows "RNNEncoder_steps enc ins sls (unpack_state st) =
     (case rnn_time R Xs Ps st of
        Inl e \<Rightarrow> Inl e
      | Inr (outs, st') \<Rightarrow> Inr (map (\<lambda>ys. post A [ys]) outs, unpack_state st'))"
  using assms
proof (induction Xs arbitrary: ins sls Ps st)
  case Nil
  then show ?case by simp
next
  case (Cons x Xs)
  obtain i ins' where ins: "ins = i # ins'" using Cons.prems(1) by (cases ins) auto
  obtain l sls' where sls: "sls = l # sls'" using Cons.prems(2) by (cases sls) auto
  obtain p Ps' where Ps: "Ps = p # Ps'" using Cons.prems(3) by (cases Ps) auto
  have hd1: "\<And>m c. RNNEncoder_forward_step enc i l m c =
         (case step R x p (m, c) of
            Inl e \<Rightarrow> Inl e
          | Inr (o1, s) \<Rightarrow> Inr (post A o1, s))"
    using Cons.prems(4) [of 0] by (simp add: ins sls Ps)
  have tl1: "\<And>t m c. t < length Xs \<Longrightarrow>
       RNNEncoder_forward_step enc (ins' ! t) (sls' ! t) m c =
         (case step R (Xs ! t) (Ps' ! t) (m, c) of
            Inl e \<Rightarrow> Inl e
          | Inr (o1, s) \<Rightarrow> Inr (post A o1, s))"
    using Cons.prems(4) [of "Suc t" for t] by (simp add: ins sls Ps)
  have l1: "length ins' = length Xs" "length sls' = length Xs" "length Ps' = length Xs"
    using Cons.prems(1,2,3) by (simp_all add: ins sls Ps)
  note ih = Cons.IH [OF l1 tl1]
  obtain m c where mc: "unpack_state st = (m, c)" by (cases "unpack_state st")
  have su: "step R x p (m, c) =
     (case rnn_step R p x st of
        Inl e \<Rightarrow> Inl e
      | Inr (ys, st') \<Rightarrow> Inr ([ys], unpack_state st'))"
    using step_unpacked [of R x p st] mc by simp
  show ?case
  proof (cases "rnn_step R p x st")
    case (Inl e)
    then show ?thesis by (simp add: ins sls Ps mc hd1 su)
  next
    case (Inr r)
    obtain ys st1 where r: "r = (ys, st1)" by (cases r)
    have first: "RNNEncoder_forward_step enc i l m c = Inr (post A [ys], unpack_state st1)"
      by (simp add: hd1 su Inr r)
    show ?thesis
      using ih [of st1]
      by (simp add: ins sls Ps mc first Inr r split: sum.splits prod.splits)
  qed
qed

lemma layers_step_out_length:
  assumes "layers_step R l pads xs st = (zs, st')"
    "length pads = length xs" "list_all (\<lambda>ss. length ss = length xs) st"
  shows "length zs = length xs"
  using assms
proof (induction st arbitrary: l xs zs st')
  case Nil
  then show ?case by simp
next
  case (Cons ss rest)
  obtain ys ss' where ls: "layer_step R l pads xs ss = (ys, ss')"
    by (cases "layer_step R l pads xs ss")
  let ?xs' = "if rest = [] then ys else map (dropout R) ys"
  obtain zs' rest' where rs: "layers_step R (Suc l) pads ?xs' rest = (zs', rest')"
    by (cases "layers_step R (Suc l) pads ?xs' rest")
  have zs: "zs = zs'" using Cons.prems(1) ls rs by simp
  have lss: "length ss = length xs" using Cons.prems(3) by simp
  note h = layer_step_hold [OF ls Cons.prems(2) lss]
  have lx: "length ?xs' = length xs" using h(2) by simp
  have all': "list_all (\<lambda>ss. length ss = length ?xs') rest"
    using Cons.prems(3) lx by simp
  have p': "length pads = length ?xs'" using Cons.prems(2) lx by simp
  show ?case using Cons.IH [OF rs p' all'] lx zs by simp
qed

lemma rnn_step_out_length:
  assumes "rnn_step R pads xs st = Inr (ys, st')"
  shows "length ys = length xs"
proof -
  have ok: "step_shapes_ok R pads xs st" and ls: "layers_step R 0 pads xs st = (ys, st')"
    using assms by (auto simp: rnn_step_def split: if_splits)
  have lp: "length pads = length xs" using ok by (simp add: step_shapes_ok_def)
  have all: "list_all (\<lambda>ss. length ss = length xs) st"
    using ok by (auto simp: step_shapes_ok_def list_all_iff)
  show ?thesis using layers_step_out_length [OF ls lp all] .
qed

lemma rnn_time_out_lengths:
  assumes "rnn_time R Xs Ps st = Inr (outs, st')" "list_all (\<lambda>xs. length xs = B) Xs"
  shows "length outs = length Xs \<and> list_all (\<lambda>ys. length ys = B) outs"
  using assms
proof (induction R Xs Ps st arbitrary: outs st' rule: rnn_time.induct)
  case (1 R st)
  then show ?case by simp
next
  case (2 R xs input pads paddings st)
  obtain ys st1 where s1: "rnn_step R pads xs st = Inr (ys, st1)"
    using "2.prems"(1) by (auto split: sum.splits)
  obtain outs1 where r1: "rnn_time R input paddings st1 = Inr (outs1, st')"
    and o: "outs = ys # outs1"
    using "2.prems"(1) s1 by (auto split: sum.splits)
  have rest: "list_all (\<lambda>xs. length xs = B) input" using "2.prems"(2) by simp
  have "length ys = B" using rnn_step_out_length [OF s1] "2.prems"(2) by simp
  then show ?case using "2.IH" [OF s1 refl r1 rest] o by simp
next
  case (3 R pads paddings st)
  then show ?case by simp
next
  case (4 R xs input st)
  then show ?case by simp
qed

lemma post_single:
  assumes "length ys = B" "b < B"
  shows "post A [ys] ! b = [log_probabilities A (ys ! b)]"
  using assms by (simp add: post_def dim1_def transpose01_def)

lemma post_concat:
  assumes "outs \<noteq> []" "list_all (\<lambda>ys. length ys = B) outs"
  shows "post A outs = time_concat B (map (\<lambda>ys. post A [ys]) outs)"
proof -
  have d: "dim1 outs = B" using assms by (cases outs) (simp_all add: dim1_def)
  have l: "post A outs = map (\<lambda>b. map (\<lambda>ys. log_probabilities A (ys ! b)) outs) [0..<B]"
    by (simp add: post_def d transpose01_def o_def)
  have r: "\<And>b. b < B \<Longrightarrow>
      concat (map (\<lambda>o3. o3 ! b) (map (\<lambda>ys. post A [ys]) outs))
        = map (\<lambda>ys. log_probabilities A (ys ! b)) outs"
  proof -
    fix b assume b: "b < B"
    have "list_all (\<lambda>ys. length ys = B) outs \<Longrightarrow>
        concat (map (\<lambda>o3. o3 ! b) (map (\<lambda>ys. post A [ys]) outs))
          = map (\<lambda>ys. log_probabilities A (ys ! b)) outs"
      by (induction outs) (simp_all add: post_single b)
    then show "concat (map (\<lambda>o3. o3 ! b) (map (\<lambda>ys. post A [ys]) outs))
        = map (\<lambda>ys. log_probabilities A (ys ! b)) outs"
      using assms(2) by simp
  qed
  show ?thesis
    unfolding l time_concat_def
  proof (rule map_cong [OF refl])
    fix b assume "b \<in> set [0..<B]"
    then have "b < B" by simp
    then show "map (\<lambda>ys. log_probabilities A (ys ! b)) outs
                 = concat (map (\<lambda>o3. o3 ! b) (map (\<lambda>ys. post A [ys]) outs))"
      by (rule r [symmetric])
  qed
qed


lemma adaptive_steps_agree_with_forward:
  assumes ad: "log_softmax enc = AdaptiveLogSoftmax A" "adaptive_softmax enc"
    and ne: "input \<noteq> []" and T: "0 < T"
    and rect: "list_all (\<lambda>row. length row = T) input"
    and valid: "list_all (list_all (\<lambda>i. 0 \<le> i \<and> i < int (length (lookup_table enc)))) input"
    and P: "padding seq_len = Inr P" "length P = T"
    and sl: "length seq_lens = T" "\<And>t. t < T \<Longrightarrow> padding (seq_lens ! t) = Inr [P ! t]"
  shows "case RNNEncoder_steps enc (map (\<lambda>t. column t input) [0..<T]) seq_lens
                (unpack_state (zero_state (stacked_rnn enc) (length input))) of
           Inl e \<Rightarrow> RNNEncoder_forward enc input seq_len = Inl e
         | Inr (os, s) \<Rightarrow>
             RNNEncoder_forward enc input seq_len = Inr (time_concat (length input) os)
             \<and> (\<exists>o1. encode_sequence (stacked_rnn enc)
                       (transpose01 T (map (map (\<lambda>i. lookup_table enc ! nat i)) input)) P
                     = Inr (o1, s))"
proof -
  let ?W = "lookup_table enc" and ?R = "stacked_rnn enc" and ?B = "length input"
  let ?E = "map (map (\<lambda>i. ?W ! nat i)) input"
  let ?X = "transpose01 T ?E"
  let ?z = "zero_state ?R ?B"
  have emb: "Embedding_call ?W input = Inr ?E" using valid by (rule Embedding_call_valid)
  have dE: "dim1 ?E = T" using ne rect by (cases input) (simp_all add: dim1_def)
  have lX: "length ?X = T" by (simp add: transpose01_def)
  have Xt: "\<And>t. t < T \<Longrightarrow> ?X ! t = map (\<lambda>row. ?W ! nat (row ! t)) input"
    using rect by (auto simp: transpose01_def list_all_iff)
  have XB: "list_all (\<lambda>xs. length xs = ?B) ?X"
    by (simp add: transpose01_def list_all_iff)
  have dX: "dim1 ?X = ?B" using T lX XB by (cases ?X) (auto simp: dim1_def)
  have fw: "RNNEncoder_forward enc input seq_len =
      (case rnn_time ?R ?X P ?z of
         Inl e \<Rightarrow> Inl e
       | Inr (outs, st') \<Rightarrow> Inr (post A outs))"
    by (simp add: RNNEncoder_forward_def emb dE P StackedRNNLayer_forward_def dX project_def
          ad post_def AdaptiveLogSoftmax_call_def split: sum.splits prod.splits)
  have en: "encode_sequence ?R ?X P =
      (case rnn_time ?R ?X P ?z of
         Inl e \<Rightarrow> Inl e
       | Inr (outs, st') \<Rightarrow> Inr (outs, unpack_state st'))"
    by (simp add: encode_sequence_def StackedRNNLayer_forward_def dX)
  have one: "\<And>t m c. t < length ?X \<Longrightarrow>
       RNNEncoder_forward_step enc (map (\<lambda>t. column t input) [0..<T] ! t) (seq_lens ! t) m c =
         (case step ?R (?X ! t) (P ! t) (m, c) of
            Inl e \<Rightarrow> Inl e
          | Inr (o1, s) \<Rightarrow> Inr (post A o1, s))"
  proof -
    fix t m c assume "t < length ?X"
    then have t: "t < T" using lX by simp
    let ?Et = "map (map (\<lambda>i. ?W ! nat i)) (column t input)"
    have e1: "Embedding_call ?W (column t input) = Inr ?Et"
      using column_valid [OF valid rect t] by (rule Embedding_call_valid)
    let ?col = "map (\<lambda>row. [?W ! nat (row ! t)]) input"
    have Et: "?Et = ?col" by (simp add: column_def)
    have d1: "dim1 ?col = 1" using ne by (cases input) (simp_all add: dim1_def)
    have t1: "transpose01 1 ?col = [map (\<lambda>row. ?W ! nat (row ! t)) input]"
      by (simp add: transpose01_def)
    have tr: "transpose01 (dim1 ?Et) ?Et = [?X ! t]"
      unfolding Et d1 t1 Xt [OF t] ..
    show "RNNEncoder_forward_step enc (map (\<lambda>t. column t input) [0..<T] ! t) (seq_lens ! t) m c =
         (case step ?R (?X ! t) (P ! t) (m, c) of
            Inl e \<Rightarrow> Inl e
          | Inr (o1, s) \<Rightarrow> Inr (post A o1, s))"
      using forward_step_adaptive [OF ad e1 tr sl(2) [OF t]] t by simp
  qed
  have st: "RNNEncoder_steps enc (map (\<lambda>t. column t input) [0..<T]) seq_lens (unpack_state ?z) =
     (case rnn_time ?R ?X P ?z of
        Inl e \<Rightarrow> Inl e
      | Inr (outs, st') \<Rightarrow> Inr (map (\<lambda>ys. post A [ys]) outs, unpack_state st'))"
  proof (rule steps_by_rnn_time)
    show "length (map (\<lambda>t. column t input) [0..<T]) = length ?X" by (simp add: lX)
    show "length seq_lens = length ?X" by (simp add: lX sl(1))
    show "length P = length ?X" by (simp add: lX P(2))
    fix t m c assume "t < length ?X"
    then show "RNNEncoder_forward_step enc (map (\<lambda>t. column t input) [0..<T] ! t)
                  (seq_lens ! t) m c =
         (case step ?R (?X ! t) (P ! t) (m, c) of
            Inl e \<Rightarrow> Inl e
          | Inr (o1, s) \<Rightarrow> Inr (post A o1, s))"
      by (rule one)
  qed
  show ?thesis
  proof (cases "rnn_time ?R ?X P ?z")
    case (Inl e)
    then show ?thesis by (simp add: st fw)
  next
    case (Inr r)
    obtain outs st' where r: "r = (outs, st')" by (cases r)
    have run: "rnn_time ?R ?X P ?z = Inr (outs, st')" using Inr r by simp
    note ol = rnn_time_out_lengths [OF run XB]
    have nz: "outs \<noteq> []" using ol lX T by auto
    have pc: "post A outs = time_concat ?B (map (\<lambda>ys. post A [ys]) outs)"
      using nz ol by (intro post_concat) simp_all
    show ?thesis
      by (simp add: st fw en run pc)
  qed
qed

text \<open>A batch of lengths \<open>[1, 3]\<close>: the steps return, the first sequence is held at its
  third timestep, and the full call returns the joined outputs.\<close>

lemma adaptive_steps_example:
  "\<exists>os s. RNNEncoder_steps (example_encoder 2 True)
       (map (\<lambda>t. column t [[0, 1, 0], [1, 0, 1]]) [0..<3]) [[1, 1], [1, 1], [- 1, 1]]
       (unpack_state (zero_state (stacked_rnn (example_encoder 2 True)) 2))
     = Inr (os, s)
   \<and> fst s = [[[2], [3]]]
   \<and> RNNEncoder_forward (example_encoder 2 True) [[0, 1, 0], [1, 0, 1]] [1, 3]
         = Inr (time_concat 2 os)"
proof -
  have ad: "log_softmax (example_encoder 2 True)
              = AdaptiveLogSoftmax (w_adaptive (example_weights 2))"
    "adaptive_softmax (example_encoder 2 True)"
    by (simp_all add: example_encoder_def RNNEncoder_init_def)
  have P: "padding [1, 3] = Inr [[False, False], [False, False], [True, False]]"
    by code_simp
  have p1: "padding [1, 1] = Inr [[False, False]]" by code_simp
  have p2: "padding [- 1, 1] = Inr [[True, False]]" by code_simp
  have rows: "\<And>t. t < 3 \<Longrightarrow> padding ([[1, 1], [1, 1], [- 1, 1]] ! t)
                 = Inr [[[False, False], [False, False], [True, False]] ! t]"
  proof -
    fix t :: nat assume "t < 3"
    then consider "t = 0" | "t = 1" | "t = 2" by linarith
    then show "padding ([[1, 1], [1, 1], [- 1, 1]] ! t)
                 = Inr [[[False, False], [False, False], [True, False]] ! t]"
      by cases (simp_all add: p1 p2)
  qed
  have v: "list_all (list_all (\<lambda>i. 0 \<le> i \<and> i < int (length (lookup_table (example_encoder 2 True)))))
             [[0, 1, 0], [1, 0, 1]]"
    by (simp add: example_encoder_def RNNEncoder_init_def example_weights_def)
  obtain os s where run: "RNNEncoder_steps (example_encoder 2 True)
       (map (\<lambda>t. column t [[0, 1, 0], [1, 0, 1]]) [0..<3]) [[1, 1], [1, 1], [- 1, 1]]
       (unpack_state (zero_state (stacked_rnn (example_encoder 2 True)) 2))
     = Inr (os, s)" and fs: "fst s = [[[2], [3]]]"
    by (simp add: upt_conv_Cons column_def example_encoder_def example_weights_def
        RNNEncoder_init_def RNNEncoder_forward_step_def Embedding_call_def embedding_row_def
        StackedRNNLayer_forward_def zero_state_def dim1_def rnn_step_def step_shapes_ok_def
        layer_step_def cell_step_def select_def acc_cell_def transition_def supported_cell_def unpack_state_def pack_state_def
        state_pair_ok_def project_def transpose01_def AdaptiveLogSoftmax_call_def p1 p2
        eval_nat_numeral)
  have len: "length [[0, 1, 0], [1, 0, 1 :: int]] = 2" by simp
  have "case RNNEncoder_steps (example_encoder 2 True)
               (map (\<lambda>t. column t [[0, 1, 0], [1, 0, 1]]) [0..<3]) [[1, 1], [1, 1], [- 1, 1]]
               (unpack_state (zero_state (stacked_rnn (example_encoder 2 True))
                  (length [[0, 1, 0], [1, 0, 1 :: int]]))) of
          Inl e \<Rightarrow> RNNEncoder_forward (example_encoder 2 True) [[0, 1, 0], [1, 0, 1]] [1, 3]
                     = Inl e
        | Inr (os, s) \<Rightarrow>
            RNNEncoder_forward (example_encoder 2 True) [[0, 1, 0], [1, 0, 1]] [1, 3]
              = Inr (time_concat (length [[0, 1, 0], [1, 0, 1 :: int]]) os)
            \<and> (\<exists>o1. encode_sequence (stacked_rnn (example_encoder 2 True))
                      (transpose01 3 (map (map (\<lambda>i. lookup_table (example_encoder 2 True) ! nat i))
                         [[0, 1, 0], [1, 0, 1]]))
                      [[False, False], [False, False], [True, False]] = Inr (o1, s))"
    by (rule adaptive_steps_agree_with_forward [OF ad _ _ _ v P _ _ rows]) simp_all
  then have "RNNEncoder_forward (example_encoder 2 True) [[0, 1, 0], [1, 0, 1]] [1, 3]
              = Inr (time_concat 2 os)"
    unfolding len run by simp
  then show ?thesis using run fs by blast
qed

text \<open>
  Claim C1: calling the single-step path \<open>T\<close> times, threading the state, gives the same
  log-probabilities and final state as one full-sequence forward call.

  Inside the stacked layer the two agree (\<open>steps_equiv_with_state\<close>,
  \<open>steps_equiv_from_zero\<close>), and so do the two methods of \<^verbatim>\<open>RNNEncoder\<close> in the
  adaptive mode (\<open>adaptive_steps_agree_with_forward\<close>). In the plain mode they do not:
  with a plain encoder of vocabulary 2, one token and \<open>T = 1\<close>, the single-step call
  returns log-probabilities and a state, and the full-sequence call raises TypeError.
\<close>

theorem forward_raises_where_step_returns:
  "RNNEncoder_forward (example_encoder 2 False) [[0]] [1] = Inl TypeError
   \<and> RNNEncoder_forward_step (example_encoder 2 False) [[0]] [1] [[[0]]] [[[0]]]
       = Inr ([[[1 - ln (exp 1 + exp 1), 1 - ln (exp 1 + exp 1)]]], ([[[1]]], [[[0]]]))"
  by (simp add: example_encoder_def example_weights_def RNNEncoder_init_def
        RNNEncoder_forward_def RNNEncoder_forward_step_def Embedding_call_def
        embedding_row_def StackedRNNLayer_forward_def zero_state_def dim1_def rnn_step_def
        step_shapes_ok_def layer_step_def cell_step_def select_def acc_cell_def transition_def supported_cell_def
        unpack_state_def pack_state_def state_pair_ok_def project_def Linear_call_def
        linear_vec_def transpose01_def LogSoftmax_call_def F_log_softmax_def log_softmax_vec_def padding_def
        torch_arange_def upt_conv_Cons eval_nat_numeral)

subsection \<open>The state of a single step\<close>

text \<open>The GRU-style cell hands the second state tensor on as it is; a run keeps the
  number of layers, and its first timestep checks the cell type and the layer count.\<close>

lemma cell_step_gru_c:
  "cell_type R = ''gru'' \<Longrightarrow> snd (snd (cell_step R l pad x s)) = snd s"
  by (cases s) (simp add: cell_step_def transition_def select_def split: prod.splits)

lemma layer_step_gru_c:
  assumes "layer_step R l pads xs ss = (ys, ss')"
    "length pads = length xs" "length ss = length xs" "cell_type R = ''gru''"
  shows "map snd ss' = map snd ss"
proof -
  have ss': "ss' = map snd (map (\<lambda>(pad, x, s). cell_step R l pad x s) (zip pads (zip xs ss)))"
    using assms(1) by (auto simp: layer_step_def Let_def)
  show ?thesis
    unfolding ss'
    using assms(2,3)
    by (intro nth_equalityI) (simp_all add: cell_step_gru_c [OF assms(4)])
qed

lemma layers_step_gru_c:
  assumes "layers_step R l pads xs st = (zs, st')"
    "length pads = length xs" "list_all (\<lambda>ss. length ss = length xs) st"
    "cell_type R = ''gru''"
  shows "map (map snd) st' = map (map snd) st"
  using assms(1,2,3)
proof (induction st arbitrary: l xs zs st')
  case Nil
  then show ?case by simp
next
  case (Cons ss rest)
  obtain ys ss' where ls: "layer_step R l pads xs ss = (ys, ss')"
    by (cases "layer_step R l pads xs ss")
  let ?xs' = "if rest = [] then ys else map (dropout R) ys"
  obtain zs' rest' where rs: "layers_step R (Suc l) pads ?xs' rest = (zs', rest')"
    by (cases "layers_step R (Suc l) pads ?xs' rest")
  have st': "st' = ss' # rest'" using Cons.prems(1) ls rs by simp
  have lss: "length ss = length xs" using Cons.prems(3) by simp
  note h = layer_step_hold [OF ls Cons.prems(2) lss]
  have lx: "length ?xs' = length xs" using h(2) by simp
  have all': "list_all (\<lambda>ss. length ss = length ?xs') rest"
    using Cons.prems(3) lx by simp
  have p': "length pads = length ?xs'" using Cons.prems(2) lx by simp
  show ?case
    using Cons.IH [OF rs p' all'] layer_step_gru_c [OF ls Cons.prems(2) lss assms(4)] st'
    by simp
qed

lemma rnn_step_gru_c:
  assumes "rnn_step R pads xs st = Inr (ys, st')" "cell_type R = ''gru''"
  shows "map (map snd) st' = map (map snd) st"
proof -
  have ok: "step_shapes_ok R pads xs st" and ls: "layers_step R 0 pads xs st = (ys, st')"
    using assms(1) by (auto simp: rnn_step_def split: if_splits)
  have lp: "length pads = length xs" using ok by (simp add: step_shapes_ok_def)
  have all: "list_all (\<lambda>ss. length ss = length xs) st"
    using ok by (auto simp: step_shapes_ok_def list_all_iff)
  show ?thesis using layers_step_gru_c [OF ls lp all assms(2)] .
qed

lemma rnn_time_gru_c:
  assumes "rnn_time R input paddings st = Inr (outs, st')" "cell_type R = ''gru''"
  shows "map (map snd) st' = map (map snd) st"
  using assms
proof (induction R input paddings st arbitrary: outs st' rule: rnn_time.induct)
  case (1 R st)
  then show ?case by simp
next
  case (2 R xs input pads paddings st)
  obtain ys st1 where s1: "rnn_step R pads xs st = Inr (ys, st1)"
    using "2.prems"(1) by (auto split: sum.splits)
  obtain outs1 where r1: "rnn_time R input paddings st1 = Inr (outs1, st')"
    using "2.prems"(1) s1 by (auto split: sum.splits)
  have g: "cell_type R = ''gru''" using "2.prems"(2) .
  show ?case
    using "2.IH" [OF s1 refl r1 g] rnn_step_gru_c [OF s1 g] by simp
next
  case (3 R pads paddings st)
  then show ?case by simp
next
  case (4 R xs input st)
  then show ?case by simp
qed

lemma rnn_time_length:
  assumes "rnn_time R input paddings st = Inr (outs, st')"
  shows "length st' = length st"
  using assms
proof (induction R input paddings st arbitrary: outs st' rule: rnn_time.induct)
  case (1 R st)
  then show ?case by simp
next
  case (2 R xs input pads paddings st)
  obtain ys st1 where s1: "rnn_step R pads xs st = Inr (ys, st1)"
    using "2.prems"(1) by (auto split: sum.splits)
  obtain outs1 where r1: "rnn_time R input paddings st1 = Inr (outs1, st')"
    using "2.prems"(1) s1 by (auto split: sum.splits)
  show ?case using "2.IH" [OF s1 refl r1] rnn_step_hold [OF s1] by simp
next
  case (3 R pads paddings st)
  then show ?case by simp
next
  case (4 R xs input st)
  then show ?case by simp
qed

lemma rnn_time_first_checks:
  assumes "rnn_time R input paddings st = Inr (outs, st')" "input \<noteq> []"
  shows "supported_cell R \<and> length st = rnn_n_layers R"
proof -
  obtain xs rest where i: "input = xs # rest" using assms(2) by (cases input) auto
  obtain pads prest where p: "paddings = pads # prest"
    using assms(1) i by (cases paddings) auto
  obtain ys st1 where s1: "rnn_step R pads xs st = Inr (ys, st1)"
    using assms(1) i p by (auto split: sum.splits)
  then show ?thesis
    by (auto simp: rnn_step_def step_shapes_ok_def split: if_splits)
qed

lemma StackedRNNLayer_forward_state:
  assumes "StackedRNNLayer_forward R emb pad (Some (state_m, state_c)) = Inr (o1, (m', c'))"
  shows "state_pair_ok state_m state_c \<and> state_pair_ok m' c'
       \<and> length m' = length state_m \<and> length c' = length state_c
       \<and> (if cell_type R = ''gru'' then c' = state_c else True)
       \<and> (if emb = [] then True
          else supported_cell R \<and> length state_m = rnn_n_layers R
               \<and> length state_c = rnn_n_layers R)"
proof -
  have ok: "state_pair_ok state_m state_c"
    using assms by (auto simp: StackedRNNLayer_forward_def split: if_splits)
  obtain st' where run: "rnn_time R emb pad (pack_state state_m state_c) = Inr (o1, st')"
    and un: "unpack_state st' = (m', c')"
    using assms ok by (auto simp: StackedRNNLayer_forward_def split: sum.splits)
  have m': "m' = map (map fst) st'" and c': "c' = map (map snd) st'"
    using un by (simp_all add: unpack_state_def)
  have ok': "state_pair_ok m' c'" using state_pair_ok_unpack [of st'] un by simp
  have up: "unpack_state (pack_state state_m state_c) = (state_m, state_c)"
    using ok by (rule unpack_pack_state)
  have lp: "length (pack_state state_m state_c) = length state_m"
    "length state_c = length state_m"
    using ok by (simp_all add: pack_state_def state_pair_ok_def)
  have len: "length st' = length state_m"
    using rnn_time_length [OF run] lp by simp
  have gru: "cell_type R = ''gru'' \<Longrightarrow> c' = state_c"
    using rnn_time_gru_c [OF run] up by (simp add: c' unpack_state_def)
  have first: "emb \<noteq> [] \<Longrightarrow> supported_cell R \<and> length state_m = rnn_n_layers R
               \<and> length state_c = rnn_n_layers R"
    using rnn_time_first_checks [OF run] lp by simp
  show ?thesis
    using ok ok' len lp gru first by (simp add: m' c')
qed

text \<open>
  Claim C9: for every cell type, a call of \<^verbatim>\<open>RNNLM.forward_step\<close> that returns has taken the
  prior state as the two tensors \<open>state_m\<close> and \<open>state_c\<close>, of the same shape, and passed
  both to the stacked layer; the two tensors it returns after the log-probabilities are the
  two tensors of the new state of \<^verbatim>\<open>RNNEncoder.forward_step\<close>, again of the same shape and
  with as many layers, so that they can be threaded into the next call. With the GRU-style
  cell the second tensor comes back unchanged, and is required all the same.
\<close>

theorem single_step_carries_two_state_tensors:
  assumes "RNNLM_forward_step
             (RNNLM_init V' (as_module (RNNEncoder_init V n i h p ct ad W)) w nl)
             input seq_len state_m state_c = Inr (o3, new_m, new_c)"
  shows "\<exists>emb pad o1 m' c'.
           StackedRNNLayer_forward (stacked_rnn (RNNEncoder_init V n i h p ct ad W)) emb pad
               (Some (state_m, state_c)) = Inr (o1, (m', c'))
         \<and> RNNEncoder_forward_step (RNNEncoder_init V n i h p ct ad W)
               input seq_len state_m state_c = Inr (o3, (m', c'))
         \<and> new_m = tensor_of_state m' \<and> new_c = tensor_of_state c'
         \<and> state_pair_ok state_m state_c \<and> state_pair_ok m' c'
         \<and> length m' = length state_m \<and> length c' = length state_c
         \<and> (if ct = ''gru'' then c' = state_c else True)
         \<and> (if emb = [] then True
            else (ct = ''gru'' \<or> ct = ''lstm'') \<and> length state_m = n \<and> length state_c = n)"
proof -
  let ?enc = "RNNEncoder_init V n i h p ct ad W"
  obtain m' c' where
    enc: "RNNEncoder_forward_step ?enc input seq_len state_m state_c = Inr (o3, (m', c'))"
    and nm: "new_m = tensor_of_state m'" and nc: "new_c = tensor_of_state c'"
    using assms
    by (auto simp: RNNLM_forward_step_def RNNLM_init_def as_module_def
          split: sum.splits prod.splits)
  obtain emb pad o1 where
    st: "StackedRNNLayer_forward (stacked_rnn ?enc) emb pad (Some (state_m, state_c))
           = Inr (o1, (m', c'))"
    using enc by (auto simp: RNNEncoder_forward_step_def split: sum.splits prod.splits)
  have R: "cell_type (stacked_rnn ?enc) = ct" "rnn_n_layers (stacked_rnn ?enc) = n"
    by (simp_all add: RNNEncoder_init_def)
  note s = StackedRNNLayer_forward_state [OF st]
  have "state_pair_ok state_m state_c \<and> state_pair_ok m' c'
       \<and> length m' = length state_m \<and> length c' = length state_c
       \<and> (if ct = ''gru'' then c' = state_c else True)
       \<and> (if emb = [] then True
          else (ct = ''gru'' \<or> ct = ''lstm'') \<and> length state_m = n \<and> length state_c = n)"
    using s unfolding supported_cell_def R by (simp split: if_splits)
  then show ?thesis using st enc nm nc by blast
qed

lemmas step_run_defs = RNNLM_forward_step_def RNNLM_init_def as_module_def example_encoder_def
  example_lstm_encoder_def example_weights_def RNNEncoder_init_def RNNEncoder_forward_step_def
  Embedding_call_def embedding_row_def StackedRNNLayer_forward_def dim1_def rnn_step_def
  step_shapes_ok_def layer_step_def cell_step_def select_def acc_cell_def acc2_cell_def
  transition_def supported_cell_def unpack_state_def pack_state_def state_pair_ok_def
  project_def transpose01_def AdaptiveLogSoftmax_call_def

theorem single_step_carries_two_state_tensors_witness:
  "(\<exists>o3. RNNLM_forward_step (RNNLM_init 2 (as_module (example_encoder 2 True)) 0 False)
            [[0], [1]] [1, 1] [[[0], [0]]] [[[5], [7]]]
          = Inr (o3, tensor_of_state [[[1], [1]]], tensor_of_state [[[5], [7]]]))
   \<and> (\<exists>o3. RNNLM_forward_step (RNNLM_init 2 (as_module (example_lstm_encoder 2)) 0 False)
            [[0], [1]] [1, 1] [[[0], [0]]] [[[5], [7]]]
          = Inr (o3, tensor_of_state [[[1], [1]]], tensor_of_state [[[4], [6]]]))
   \<and> state_pair_ok [[[0], [0]]] [[[5], [7 :: real]]]"
proof -
  have p: "padding [1, 1] = Inr [[False, False]]" by code_simp
  obtain o3 where g: "RNNLM_forward_step
        (RNNLM_init 2 (as_module (RNNEncoder_init 2 1 1 1 1 ''gru'' True (example_weights 2)))
           0 False)
        [[0], [1]] [1, 1] [[[0], [0]]] [[[5], [7]]]
      = Inr (o3, tensor_of_state [[[1], [1]]], tensor_of_state [[[5], [7]]])"
    by (simp add: step_run_defs p upt_conv_Cons eval_nat_numeral)
  obtain o4 where l: "RNNLM_forward_step
        (RNNLM_init 2 (as_module (RNNEncoder_init 2 1 1 1 1 ''lstm'' True (example_weights 2)))
           0 False)
        [[0], [1]] [1, 1] [[[0], [0]]] [[[5], [7]]]
      = Inr (o4, tensor_of_state [[[1], [1]]], tensor_of_state [[[4], [6]]])"
    by (simp add: step_run_defs p upt_conv_Cons eval_nat_numeral)
  have "state_pair_ok [[[0], [0]]] [[[5], [7 :: real]]]"
    using single_step_carries_two_state_tensors [OF g] by (elim exE conjE)
  then show ?thesis
    using g l unfolding example_encoder_def example_lstm_encoder_def by blast
qed

end
